theory Spec2Isabelle
  imports Main "HOL-Library.Word"
begin

unbundle bit_operations_syntax

section \<open>Go values and the standard-library functions the program calls\<close>

text \<open>
  Go's \<open>int64\<close> is modelled as an \<open>int\<close> kept in the range
  \<open>[minInt64, maxInt64]\<close>; every \<open>+\<close> and \<open>-\<close> of the source is followed by
  \<open>wrap64\<close>, the two's-complement wrap-around Go defines for signed overflow.
  A Go \<open>string\<close> is a sequence of bytes, here a \<open>string\<close> (a list of 8-bit characters);
  a \<open>[]byte\<close> or the content of a file or stream is a list of 8-bit words.
\<close>

type_synonym byte = "8 word"

definition maxInt64 :: int where
  "maxInt64 = 9223372036854775807"

definition minInt64 :: int where
  "minInt64 = - 9223372036854775808"

definition wrap64 :: "int \<Rightarrow> int" where
  "wrap64 x = (x + 9223372036854775808) mod 18446744073709551616 - 9223372036854775808"

text \<open>
  \<open>strings.Split(s, sep)\<close> for a one-byte separator: the substrings between the
  separators, so that the result has one more element than \<open>s\<close> has separators
  (\<open>Split "" sep\<close> is the one-element list of the empty string).
\<close>

fun Split :: "string \<Rightarrow> char \<Rightarrow> string list" where
  "Split [] sep = [[]]"
| "Split (c # cs) sep =
     (if c = sep then [] # Split cs sep
      else case Split cs sep of
             [] \<Rightarrow> [[c]]
           | x # xs \<Rightarrow> (c # x) # xs)"

definition isDigit :: "char \<Rightarrow> bool" where
  "isDigit c = (c \<in> set ''0123456789'')"

definition digitVal :: "char \<Rightarrow> nat" where
  "digitVal c = of_char c - 48"

fun digitsVal :: "nat \<Rightarrow> string \<Rightarrow> nat option" where
  "digitsVal acc [] = Some acc"
| "digitsVal acc (c # cs) = (if isDigit c then digitsVal (10 * acc + digitVal c) cs else None)"

text \<open>
  \<open>strconv.ParseUint(s, 10, 64)\<close>: a non-empty string of decimal digits whose value
  fits in 64 bits; anything else is an error (\<open>None\<close>: the program only tests
  \<open>err == nil\<close>).
\<close>

definition ParseUint :: "string \<Rightarrow> nat option" where
  "ParseUint s =
     (if s = [] then None
      else case digitsVal 0 s of
             None \<Rightarrow> None
           | Some v \<Rightarrow> if v \<ge> 18446744073709551616 then None else Some v)"

text \<open>
  \<open>strconv.ParseInt(s, 10, 64)\<close>: an optional sign \<open>+\<close> or \<open>-\<close>, then
  \<open>ParseUint\<close> on the rest, then the range check against \<open>1 << 63\<close>.
\<close>

definition ParseInt :: "string \<Rightarrow> int option" where
  "ParseInt s =
     (if s = [] then None
      else let neg = (hd s = CHR ''-'');
               body = (if hd s = CHR ''+'' \<or> hd s = CHR ''-'' then tl s else s)
           in case ParseUint body of
                None \<Rightarrow> None
              | Some un \<Rightarrow>
                  if \<not> neg \<and> un \<ge> 9223372036854775808 then None
                  else if neg \<and> un > 9223372036854775808 then None
                  else Some (if neg then - int un else int un))"

definition digitChar :: "nat \<Rightarrow> char" where
  "digitChar d = ''0123456789'' ! d"

fun decimal :: "nat \<Rightarrow> string" where
  "decimal n = (if n < 10 then [digitChar n] else decimal (n div 10) @ [digitChar (n mod 10)])"

declare decimal.simps [simp del]

text \<open>How \<open>fmt.Sprint\<close> prints an \<open>int64\<close>: decimal, with a leading \<open>-\<close> when negative.\<close>

definition FormatInt :: "int \<Rightarrow> string" where
  "FormatInt i = (if i < 0 then CHR ''-'' # decimal (nat (- i)) else decimal (nat i))"

definition hexdigit :: "nat \<Rightarrow> char" where
  "hexdigit n = ''0123456789abcdef'' ! n"

text \<open>\<open>hex.EncodeToString\<close>: two lower-case hexadecimal digits for every byte.\<close>

definition EncodeToString :: "byte list \<Rightarrow> string" where
  "EncodeToString bs =
     concat (map (\<lambda>b. [hexdigit (unat b div 16), hexdigit (unat b mod 16)]) bs)"

definition bytesOf :: "string \<Rightarrow> byte list" where
  "bytesOf s = map of_char s"

subsection \<open>SHA-256 (\<open>crypto/sha256\<close>), after FIPS 180-4\<close>

type_synonym w32 = "32 word"

definition rotr :: "nat \<Rightarrow> w32 \<Rightarrow> w32" where
  "rotr n x = (drop_bit n x) OR (push_bit (32 - n) x)"

definition Ch :: "w32 \<Rightarrow> w32 \<Rightarrow> w32 \<Rightarrow> w32" where
  "Ch x y z = (x AND y) XOR (NOT x AND z)"

definition Maj :: "w32 \<Rightarrow> w32 \<Rightarrow> w32 \<Rightarrow> w32" where
  "Maj x y z = (x AND y) XOR (x AND z) XOR (y AND z)"

definition bsig0 :: "w32 \<Rightarrow> w32" where
  "bsig0 x = rotr 2 x XOR rotr 13 x XOR rotr 22 x"

definition bsig1 :: "w32 \<Rightarrow> w32" where
  "bsig1 x = rotr 6 x XOR rotr 11 x XOR rotr 25 x"

definition ssig0 :: "w32 \<Rightarrow> w32" where
  "ssig0 x = rotr 7 x XOR rotr 18 x XOR drop_bit 3 x"

definition ssig1 :: "w32 \<Rightarrow> w32" where
  "ssig1 x = rotr 17 x XOR rotr 19 x XOR drop_bit 10 x"

text \<open>The round constants, eight to a definition: \<open>K256_16\<close> starts at round 16.\<close>

definition K256_00 :: "w32 list" where
  "K256_00 =
     [0x428a2f98, 0x71374491, 0xb5c0fbcf, 0xe9b5dba5,
      0x3956c25b, 0x59f111f1, 0x923f82a4, 0xab1c5ed5]"

definition K256_08 :: "w32 list" where
  "K256_08 =
     [0xd807aa98, 0x12835b01, 0x243185be, 0x550c7dc3,
      0x72be5d74, 0x80deb1fe, 0x9bdc06a7, 0xc19bf174]"

definition K256_16 :: "w32 list" where
  "K256_16 =
     [0xe49b69c1, 0xefbe4786, 0x0fc19dc6, 0x240ca1cc,
      0x2de92c6f, 0x4a7484aa, 0x5cb0a9dc, 0x76f988da]"

definition K256_24 :: "w32 list" where
  "K256_24 =
     [0x983e5152, 0xa831c66d, 0xb00327c8, 0xbf597fc7,
      0xc6e00bf3, 0xd5a79147, 0x06ca6351, 0x14292967]"

definition K256_32 :: "w32 list" where
  "K256_32 =
     [0x27b70a85, 0x2e1b2138, 0x4d2c6dfc, 0x53380d13,
      0x650a7354, 0x766a0abb, 0x81c2c92e, 0x92722c85]"

definition K256_40 :: "w32 list" where
  "K256_40 =
     [0xa2bfe8a1, 0xa81a664b, 0xc24b8b70, 0xc76c51a3,
      0xd192e819, 0xd6990624, 0xf40e3585, 0x106aa070]"

definition K256_48 :: "w32 list" where
  "K256_48 =
     [0x19a4c116, 0x1e376c08, 0x2748774c, 0x34b0bcb5,
      0x391c0cb3, 0x4ed8aa4a, 0x5b9cca4f, 0x682e6ff3]"

definition K256_56 :: "w32 list" where
  "K256_56 =
     [0x748f82ee, 0x78a5636f, 0x84c87814, 0x8cc70208,
      0x90befffa, 0xa4506ceb, 0xbef9a3f7, 0xc67178f2]"

definition K256 :: "w32 list" where
  "K256 = K256_00 @ K256_08 @ K256_16 @ K256_24
            @ K256_32 @ K256_40 @ K256_48 @ K256_56"

definition H256 :: "w32 list" where
  "H256 = [0x6a09e667, 0xbb67ae85, 0x3c6ef372, 0xa54ff53a,
           0x510e527f, 0x9b05688c, 0x1f83d9ab, 0x5be0cd19]"

text \<open>The bytes of a block as big-endian 32-bit words.\<close>

fun be32 :: "byte list \<Rightarrow> w32 list" where
  "be32 (a # b # c # d # rest) =
     (push_bit 24 (ucast a) OR push_bit 16 (ucast b) OR push_bit 8 (ucast c) OR ucast d)
       # be32 rest"
| "be32 _ = []"

text \<open>The message schedule: \<open>schedule 48\<close> extends the 16 words of a block to 64.\<close>

fun schedule :: "nat \<Rightarrow> w32 list \<Rightarrow> w32 list" where
  "schedule 0 w = w"
| "schedule (Suc n) w =
     schedule n (w @ [ssig1 (w ! (length w - 2)) + w ! (length w - 7)
                      + ssig0 (w ! (length w - 15)) + w ! (length w - 16)])"

fun round256 :: "w32 \<times> w32 \<Rightarrow> w32 list \<Rightarrow> w32 list" where
  "round256 (k, w) [a, b, c, d, e, f, g, h] =
     [(h + bsig1 e + Ch e f g + k + w) + (bsig0 a + Maj a b c), a, b, c,
      d + (h + bsig1 e + Ch e f g + k + w), e, f, g]"
| "round256 _ hs = hs"

definition block256 :: "w32 list \<Rightarrow> byte list \<Rightarrow> w32 list" where
  "block256 hs p = map2 (+) hs (fold round256 (zip K256 (schedule 48 (be32 p))) hs)"

function blocks256 :: "w32 list \<Rightarrow> byte list \<Rightarrow> w32 list" where
  "blocks256 hs p =
     (if length p < 64 then hs else blocks256 (block256 hs (take 64 p)) (drop 64 p))"
  by pat_completeness auto
termination
  by (relation "measure (\<lambda>(hs, p). length p)") auto

declare blocks256.simps [simp del]

definition bytes32 :: "w32 \<Rightarrow> byte list" where
  "bytes32 v = [ucast (drop_bit 24 v), ucast (drop_bit 16 v), ucast (drop_bit 8 v), ucast v]"

definition bytes64 :: "64 word \<Rightarrow> byte list" where
  "bytes64 v =
     [ucast (drop_bit 56 v), ucast (drop_bit 48 v), ucast (drop_bit 40 v), ucast (drop_bit 32 v),
      ucast (drop_bit 24 v), ucast (drop_bit 16 v), ucast (drop_bit 8 v), ucast v]"

text \<open>
  Padding: the byte \<open>0x80\<close>, zero bytes up to 56 modulo 64, and the length of the
  message in bits as a big-endian 64-bit word.
\<close>

definition pad256 :: "byte list \<Rightarrow> byte list" where
  "pad256 m = m @ [0x80] @ replicate ((119 - length m mod 64) mod 64) 0
               @ bytes64 (8 * of_nat (length m))"

definition sha256 :: "byte list \<Rightarrow> byte list" where
  "sha256 m = concat (map bytes32 (blocks256 H256 (pad256 m)))"

subsection \<open>The tree hash of the Glacier SDK (\<open>glacier.ComputeHashes\<close>)\<close>

text \<open>Consecutive chunks of at most \<open>n\<close> elements; the last one may be shorter.\<close>

function chunks :: "nat \<Rightarrow> 'a list \<Rightarrow> 'a list list" where
  "chunks n xs = (if n = 0 \<or> xs = [] then [] else take n xs # chunks n (drop n xs))"
  by pat_completeness auto
termination
  by (relation "measure (\<lambda>(n, xs). length xs)") auto

declare chunks.simps [simp del]

text \<open>
  One level of the tree: adjacent nodes are combined left to right by hashing the
  concatenation of their digests; an unpaired last node moves up unchanged.
\<close>

fun pairUp :: "byte list list \<Rightarrow> byte list list" where
  "pairUp (a # b # rest) = sha256 (a @ b) # pairUp rest"
| "pairUp [a] = [a]"
| "pairUp [] = []"

lemma length_pairUp: "length (pairUp hs) \<le> length hs"
  by (induction hs rule: pairUp.induct) auto

lemma length_pairUp_less: "2 \<le> length hs \<Longrightarrow> length (pairUp hs) < length hs"
  using length_pairUp by (cases hs rule: pairUp.cases) (auto simp: less_Suc_eq_le)

function buildHashTree :: "byte list list \<Rightarrow> byte list option" where
  "buildHashTree hashes =
     (if hashes = [] then None
      else if length hashes = 1 then Some (hd hashes)
      else buildHashTree (pairUp hashes))"
  by pat_completeness auto
termination
proof (relation "measure length")
  fix hashes :: "byte list list"
  assume "hashes \<noteq> []" "length hashes \<noteq> 1"
  then have "2 \<le> length hashes"
    by (cases hashes) (auto simp: Suc_le_eq)
  then show "(pairUp hashes, hashes) \<in> measure length"
    by (simp add: length_pairUp_less)
qed simp

declare buildHashTree.simps [simp del]

text \<open>
  Modelled from the spec: \<open>glacier.ComputeHashes(r).TreeHash\<close> belongs to the AWS SDK
  and is not part of the repository. The stream \<open>r\<close> is the list of the bytes it
  yields, read from its start; it is split into chunks of 1 MiB, each chunk is hashed
  with SHA-256 to a leaf, and the levels are combined until one node remains. A
  stream that yields no byte has no leaf and gives no tree hash (\<open>nil\<close>).
\<close>

definition ComputeHashes_TreeHash :: "byte list \<Rightarrow> byte list option" where
  "ComputeHashes_TreeHash r = buildHashTree (map sha256 (chunks 1048576 r))"

section \<open>Package utils\<close>

record Range =
  Offset :: int
  Limit :: int

text \<open>\<open>func (r *Range) String() string\<close>\<close>

definition Range_String :: "Range \<Rightarrow> string" where
  "Range_String r =
     FormatInt (Offset r) @ ''-'' @ FormatInt (wrap64 (wrap64 (Offset r + Limit r) - 1))"

text \<open>\<open>func RangeFromString(s *string) *Range\<close>, with \<open>None\<close> for \<open>nil\<close>.\<close>

definition RangeFromString :: "string \<Rightarrow> Range option" where
  "RangeFromString s =
     (let split = Split s CHR ''-'' in
      if length split \<noteq> 2 then None
      else case ParseInt (split ! 0) of
             None \<Rightarrow> None
           | Some begin \<Rightarrow>
               (case ParseInt (split ! 1) of
                  None \<Rightarrow> None
                | Some end \<Rightarrow>
                    (let limit = wrap64 (wrap64 (end - begin) + 1) in
                     if limit \<le> 0 then None
                     else Some \<lparr>Offset = begin, Limit = limit\<rparr>)))"

text \<open>\<open>func ComputeTreeHash(r io.ReadSeeker) *string\<close>\<close>

definition ComputeTreeHash :: "byte list \<Rightarrow> string option" where
  "ComputeTreeHash r =
     (case ComputeHashes_TreeHash r of
        None \<Rightarrow> None
      | Some treeHash \<Rightarrow> Some (EncodeToString treeHash))"

section \<open>Errors, files and the Glacier client\<close>

text \<open>
  An \<open>error\<close> returned by a function is \<open>ErrorMsg\<close> with its message (the result
  of \<open>errors.New\<close> or \<open>fmt.Errorf\<close>, or an error of the operating system or of the
  service, passed on as it is). The other two are run-time panics, not returned
  errors: \<open>NilDereference\<close> that of dereferencing a \<open>nil\<close> pointer, and
  \<open>NegativeCounter\<close> that of \<open>sync.WaitGroup.Add\<close> with a delta that makes the
  counter negative. A pointer field of a response of the service is an \<open>option\<close>.
\<close>

datatype error = ErrorMsg string | NilDereference | NegativeCounter

record PartListElement =
  RangeInBytes :: "string option"
  SHA256TreeHash :: "string option"

record ListPartsOutput =
  PartSizeInBytes :: "int option"
  Parts :: "PartListElement list"

record UploadMultipartPartInput =
  Body_part :: "byte list"
  Checksum_part :: string
  Range_part :: string

text \<open>The field \<open>SHA256TreeHash\<close> of \<open>DescribeJobOutput\<close> is \<open>SHA256TreeHash_job\<close>.\<close>

record DescribeJobOutput =
  Action :: string
  StatusCode :: string
  StatusMessage :: "string option"
  ArchiveSizeInBytes :: "int option"
  SHA256TreeHash_job :: "string option"

text \<open>\<open>Body\<close> is what \<open>ioutil.ReadAll(result.Body)\<close> returns.\<close>

record GetJobOutputOutput =
  Body :: "error + byte list"
  Checksum :: "string option"

text \<open>
  \<open>io.NewSectionReader(f, off, n)\<close> read from its start to its end.
  \<open>NewSectionReader\<close> sets the limit of the section to \<open>n + off\<close> when
  \<open>off <= maxint64 - n\<close> (an \<open>int64\<close> subtraction, which wraps around for a
  negative \<open>n\<close>), and otherwise to \<open>maxint64\<close>, so that the section has no end of
  its own. \<open>Read\<close> is at the end when the offset has reached the limit, and otherwise
  reads the file at the offset, which fails for a negative offset: the bytes read
  are those of \<open>f\<close> from \<open>off\<close> up to the limit, fewer when the file ends before.
\<close>

definition SectionReader :: "byte list \<Rightarrow> int \<Rightarrow> int \<Rightarrow> byte list" where
  "SectionReader f off n =
     (let limit = (if off \<le> wrap64 (maxInt64 - n) then wrap64 (n + off) else maxInt64)
      in if off \<ge> limit \<or> off < 0 then []
         else take (nat (limit - off)) (drop (nat off) f))"

text \<open>
  The last lines of both \<open>getNextRange\<close>: the range at \<open>offset\<close>, of the part
  size, cut at the end of the file.
\<close>

definition rangeAt :: "int \<Rightarrow> int \<Rightarrow> int \<Rightarrow> Range" where
  "rangeAt partSize fileSize offset =
     \<lparr>Offset = offset,
      Limit = (if wrap64 (offset + partSize) > fileSize then wrap64 (fileSize - offset)
               else partSize)\<rparr>"

section \<open>Package uploader\<close>

text \<open>
  The state of an \<open>Uploader\<close>. Of \<open>input\<close> only \<open>UploadId\<close> and \<open>PartSize\<close> are
  read by the functions below (the account, the vault and the file name go to the
  service and the operating system unchanged). \<open>uploaded\<close> is the key set of the
  map \<open>map[int64]struct{}\<close>; \<open>file_u\<close> is the content read through the open file
  (\<open>[]\<close> for a \<open>nil\<close> handle, whose reads fail), and \<open>size_u\<close> the size \<open>Stat\<close>
  reported for it, which need not be the number of bytes the file yields.
\<close>

record Uploader =
  UploadId :: string
  PartSize_u :: int
  uploaded :: "int set"
  file_u :: "byte list"
  size_u :: int
  offset_u :: int

text \<open>
  What the uploader's surroundings answer: \<open>OpenFile\<close> is the result of \<open>os.Open\<close>
  and \<open>Stat\<close> (an error, or whether the path is a directory, the size \<open>info.Size()\<close>
  and the bytes the open file yields); \<open>ListParts\<close> is the pages the paginator
  fetches and the error that ends the pagination, if any.
\<close>

record UploadEnv =
  OpenFile :: "error + (bool \<times> int \<times> byte list)"
  InitiateMultipartUpload :: "error + string option"
  ListParts :: "ListPartsOutput list \<times> error option"
  UploadMultipartPart :: "UploadMultipartPartInput \<Rightarrow> error option"
  CompleteMultipartUpload :: "string \<Rightarrow> string \<Rightarrow> error + string option"

definition New_u :: "string \<Rightarrow> int \<Rightarrow> Uploader" where
  "New_u uploadId partSize =
     \<lparr>UploadId = uploadId, PartSize_u = partSize, uploaded = {}, file_u = [],
      size_u = 0, offset_u = 0\<rparr>"

definition initiateUpload :: "UploadEnv \<Rightarrow> Uploader \<Rightarrow> error + Uploader" where
  "initiateUpload env s =
     (if UploadId s \<noteq> [] then Inr s
      else case InitiateMultipartUpload env of
             Inl err \<Rightarrow> Inl err
           | Inr None \<Rightarrow> Inl NilDereference
           | Inr (Some uploadId) \<Rightarrow> Inr (s\<lparr>UploadId := uploadId\<rparr>))"

text \<open>
  The \<open>for\<close> loop of \<open>getNextRange\<close>: the next offset that is not in \<open>uploaded\<close>, or
  no offset at the end of the file. With wrap-around the loop need not end.
\<close>

partial_function (option) nextOffset :: "Uploader \<Rightarrow> (int option \<times> Uploader) option" where
  "nextOffset s =
     (if offset_u s \<ge> size_u s then Some (None, s)
      else if offset_u s \<notin> uploaded s
        then Some (Some (offset_u s), s\<lparr>offset_u := wrap64 (offset_u s + PartSize_u s)\<rparr>)
        else nextOffset (s\<lparr>offset_u := wrap64 (offset_u s + PartSize_u s)\<rparr>))"

definition Uploader_getNextRange :: "Uploader \<Rightarrow> (Range option \<times> Uploader) option" where
  "Uploader_getNextRange s =
     (case nextOffset s of
        None \<Rightarrow> None
      | Some (None, s') \<Rightarrow> Some (None, s')
      | Some (Some offset, s') \<Rightarrow>
          Some (Some (rangeAt (PartSize_u s') (size_u s') offset), s'))"

definition openFile_u :: "UploadEnv \<Rightarrow> Uploader \<Rightarrow> error + Uploader" where
  "openFile_u env s =
     (case OpenFile env of
        Inl err \<Rightarrow> Inl err
      | Inr (isDir, fileSize, content) \<Rightarrow>
          if isDir then Inl (ErrorMsg ''directories are not supported'')
          else Inr (s\<lparr>file_u := content, size_u := fileSize\<rparr>))"

definition uploadPart :: "UploadEnv \<Rightarrow> Uploader \<Rightarrow> Range \<Rightarrow> error option" where
  "uploadPart env s r =
     (case ComputeTreeHash (SectionReader (file_u s) (Offset r) (Limit r)) of
        None \<Rightarrow> Some (ErrorMsg ''could not compute hashes'')
      | Some treeHash \<Rightarrow>
          UploadMultipartPart env
            \<lparr>Body_part = SectionReader (file_u s) (Offset r) (Limit r),
             Checksum_part = treeHash,
             Range_part = ''bytes '' @ Range_String r @ ''/*''\<rparr>)"

text \<open>
  The dispatch loop of \<open>multipartUpload\<close> with workers that receive: the ranges
  \<open>getNextRange\<close> yields are sent to the workers one after the other until it
  yields \<open>nil\<close>; a worker calls \<open>uploadPart\<close> and only logs its error. The result is
  the state and, in the order of dispatch, every range with what \<open>uploadPart\<close>
  returned for it. The workers do not touch the state, so their interleaving is not
  modelled.
\<close>

partial_function (option) dispatch_u ::
  "UploadEnv \<Rightarrow> Uploader \<Rightarrow> (Uploader \<times> (Range \<times> error option) list) option" where
  "dispatch_u env s =
     (case Uploader_getNextRange s of
        None \<Rightarrow> None
      | Some (p, s1) \<Rightarrow>
          (case p of
             None \<Rightarrow> Some (s1, [])
           | Some r \<Rightarrow>
               Option.bind (dispatch_u env s1)
                 (\<lambda>(s2, done). Some (s2, (r, uploadPart env s1 r) # done))))"

text \<open>
  \<open>multipartUpload(jobs)\<close>: \<open>wg.Add(jobs)\<close> panics for a negative number of jobs.
  With no worker nothing receives from the channel, and sending the first range
  blocks for ever: the function returns only when the first call of \<open>getNextRange\<close>
  yields \<open>nil\<close>. It has no value when it does not return.
\<close>

definition multipartUpload ::
  "UploadEnv \<Rightarrow> int \<Rightarrow> Uploader
     \<Rightarrow> (error + Uploader \<times> (Range \<times> error option) list) option" where
  "multipartUpload env jobs s =
     (if jobs < 0 then Some (Inl NegativeCounter)
      else if jobs = 0 then
        (case Uploader_getNextRange s of
           None \<Rightarrow> None
         | Some (p, s1) \<Rightarrow>
             (case p of
                None \<Rightarrow> Some (Inr (s1, []))
              | Some r \<Rightarrow> None))
      else map_option Inr (dispatch_u env s))"

definition checkPart :: "Uploader \<Rightarrow> PartListElement \<Rightarrow> error + (bool \<times> Uploader)" where
  "checkPart s part =
     (case RangeInBytes part of
        None \<Rightarrow> Inl NilDereference
      | Some text \<Rightarrow>
          (case RangeFromString text of
             None \<Rightarrow> Inl (ErrorMsg (''part ('' @ text @ '') range is invalid''))
           | Some partRange \<Rightarrow>
               if Offset partRange \<ge> size_u s then Inl (ErrorMsg ''file size mismatch'')
               else
                 (case ComputeTreeHash
                         (SectionReader (file_u s) (Offset partRange) (Limit partRange)) of
                    None \<Rightarrow>
                      Inl (ErrorMsg (''could not compute hashes of part ('' @ text @ '')''))
                  | Some treeHash \<Rightarrow>
                      (case SHA256TreeHash part of
                         None \<Rightarrow> Inl NilDereference
                       | Some remote \<Rightarrow>
                           if treeHash = remote
                           then Inr (True,
                                  s\<lparr>uploaded := insert (Offset partRange) (uploaded s)\<rparr>)
                           else Inr (False, s)))))"

text \<open>The loop over the parts of one page, and the loop over the pages.\<close>

fun checkParts :: "Uploader \<Rightarrow> PartListElement list \<Rightarrow> error + Uploader" where
  "checkParts s [] = Inr s"
| "checkParts s (part # parts) =
     (case checkPart s part of
        Inl err \<Rightarrow> Inl err
      | Inr (ok, s1) \<Rightarrow> checkParts s1 parts)"

fun checkPages :: "Uploader \<Rightarrow> ListPartsOutput list \<Rightarrow> error + Uploader" where
  "checkPages s [] = Inr s"
| "checkPages s (result # pages) =
     (case PartSizeInBytes result of
        None \<Rightarrow> Inl NilDereference
      | Some partSize \<Rightarrow>
          if partSize \<noteq> PartSize_u s then Inl (ErrorMsg ''part size mismatch'')
          else (case checkParts s (Parts result) of
                  Inl err \<Rightarrow> Inl err
                | Inr s1 \<Rightarrow> checkPages s1 pages))"

definition checkUploadedParts :: "UploadEnv \<Rightarrow> Uploader \<Rightarrow> error + Uploader" where
  "checkUploadedParts env s =
     (case checkPages s (fst (ListParts env)) of
        Inl err \<Rightarrow> Inl err
      | Inr s1 \<Rightarrow>
          (case snd (ListParts env) of
             Some err \<Rightarrow> Inl err
           | None \<Rightarrow> Inr s1))"

definition completeUpload :: "UploadEnv \<Rightarrow> Uploader \<Rightarrow> error + string option" where
  "completeUpload env s =
     (case ComputeTreeHash (file_u s) of
        None \<Rightarrow> Inl (ErrorMsg ''could not compute hashes'')
      | Some treeHash \<Rightarrow> CompleteMultipartUpload env (FormatInt (size_u s)) treeHash)"

text \<open>
  \<open>Upload\<close> returns the ranges given to \<open>uploadPart\<close>, with their outcomes, and
  the error of the run (\<open>None\<close> for \<open>nil\<close>). It has no value when
  \<open>multipartUpload\<close> does not return.
\<close>

definition Upload ::
  "UploadEnv \<Rightarrow> int \<Rightarrow> Uploader
     \<Rightarrow> ((Range \<times> error option) list \<times> error option) option" where
  "Upload env jobs s =
     (case openFile_u env s of
        Inl err \<Rightarrow> Some ([], Some err)
      | Inr s1 \<Rightarrow>
     (case initiateUpload env s1 of
        Inl err \<Rightarrow> Some ([], Some err)
      | Inr s2 \<Rightarrow>
     (case checkUploadedParts env s2 of
        Inl err \<Rightarrow> Some ([], Some err)
      | Inr s3 \<Rightarrow>
     (case multipartUpload env jobs s3 of
        None \<Rightarrow> None
      | Some (Inl err) \<Rightarrow> Some ([], Some err)
      | Some (Inr (s4, done)) \<Rightarrow>
     (case completeUpload env s4 of
        Inl err \<Rightarrow> Some (done, Some err)
      | Inr None \<Rightarrow> Some (done, Some NilDereference)
      | Inr (Some location) \<Rightarrow> Some (done, None))))))"

section \<open>Package downloader\<close>

text \<open>
  The state of a \<open>Downloader\<close>; of \<open>input\<close> only \<open>FileName\<close> and \<open>PartSize\<close> are
  read below. \<open>file_d\<close> is the content of the output file.
\<close>

record Downloader =
  FileName_d :: string
  PartSize_d :: int
  file_d :: "byte list"
  treeHash :: "string option"
  size_d :: int
  offset_d :: int

text \<open>
  \<open>CreateFile\<close> is the error of \<open>os.OpenFile\<close> with \<open>O_CREATE|O_EXCL\<close>, if any (the
  path exists already); \<open>TruncateFile\<close> the error of \<open>os.Truncate\<close>, if any;
  \<open>WriteFile\<close> the error of the operating system for a write at an offset, if any.
\<close>

record DownloadEnv =
  DescribeJob :: "error + DescribeJobOutput"
  CreateFile :: "error option"
  TruncateFile :: "error option"
  WriteFile :: "int \<Rightarrow> error option"
  GetJobOutput :: "string \<Rightarrow> error + GetJobOutputOutput"

definition New_d :: "string \<Rightarrow> int \<Rightarrow> Downloader" where
  "New_d fileName partSize =
     \<lparr>FileName_d = fileName, PartSize_d = partSize, file_d = [], treeHash = None,
      size_d = 0, offset_d = 0\<rparr>"

definition openFile_d :: "DownloadEnv \<Rightarrow> Downloader \<Rightarrow> error + Downloader" where
  "openFile_d env d =
     (case CreateFile env of
        Some err \<Rightarrow> Inl err
      | None \<Rightarrow> Inr (d\<lparr>file_d := []\<rparr>))"

text \<open>
  \<open>os.Truncate(name, size)\<close>: a negative size is refused with a \<open>PathError\<close> that
  names the file; otherwise the file gets that size, cut or filled with zero bytes.
\<close>

definition Truncate :: "DownloadEnv \<Rightarrow> Downloader \<Rightarrow> error + Downloader" where
  "Truncate env d =
     (if size_d d < 0
        then Inl (ErrorMsg (''truncate '' @ FileName_d d @ '': invalid argument''))
      else case TruncateFile env of
             Some err \<Rightarrow> Inl err
           | None \<Rightarrow>
               Inr (d\<lparr>file_d := take (nat (size_d d)) (file_d d)
                              @ replicate (nat (size_d d) - length (file_d d)) 0\<rparr>))"

text \<open>
  \<open>(*os.File).WriteAt(b, off)\<close> on the file of name \<open>name\<close> and content \<open>f\<close>: a
  negative offset is refused with a \<open>PathError\<close> that names the file; otherwise the
  result is an error of the operating system, or the number of bytes written (all
  of \<open>b\<close>) with the file after the write, which extends it where needed.
\<close>

definition WriteAt ::
  "DownloadEnv \<Rightarrow> string \<Rightarrow> byte list \<Rightarrow> byte list \<Rightarrow> int
     \<Rightarrow> error + (nat \<times> byte list)" where
  "WriteAt env name f b off =
     (if off < 0 then Inl (ErrorMsg (''writeat '' @ name @ '': negative offset''))
      else case WriteFile env off of
             Some err \<Rightarrow> Inl err
           | None \<Rightarrow>
               Inr (length b,
                    take (nat off) f @ replicate (nat off - length f) 0 @ b
                      @ drop (nat off + length b) f))"

definition downloadPart :: "DownloadEnv \<Rightarrow> Downloader \<Rightarrow> Range \<Rightarrow> error option \<times> Downloader" where
  "downloadPart env d r =
     (case GetJobOutput env (''bytes='' @ Range_String r) of
        Inl err \<Rightarrow> (Some err, d)
      | Inr result \<Rightarrow>
          (case Body result of
             Inl err \<Rightarrow> (Some err, d)
           | Inr body \<Rightarrow>
               if int (length body) \<noteq> Limit r then (Some (ErrorMsg ''size mismatch''), d)
               else if Checksum result \<noteq> None \<and> ComputeTreeHash body = None
                 then (Some (ErrorMsg ''could not compute hash''), d)
               else if Checksum result \<noteq> None \<and> Checksum result \<noteq> ComputeTreeHash body
                 then (Some (ErrorMsg ''hash mismatch''), d)
               else (case WriteAt env (FileName_d d) (file_d d) body (Offset r) of
                       Inl err \<Rightarrow> (Some err, d)
                     | Inr (n, f) \<Rightarrow>
                         if int n \<noteq> Limit r
                         then (Some (ErrorMsg (''could not write '' @ FormatInt (Limit r)
                                               @ '' bytes to the file'')),
                               d\<lparr>file_d := f\<rparr>)
                         else (None, d\<lparr>file_d := f\<rparr>))))"

definition Downloader_getNextRange :: "Downloader \<Rightarrow> Range option \<times> Downloader" where
  "Downloader_getNextRange d =
     (if offset_d d \<ge> size_d d then (None, d)
      else (Some (rangeAt (PartSize_d d) (size_d d) (offset_d d)),
            d\<lparr>offset_d := wrap64 (offset_d d + PartSize_d d)\<rparr>))"

text \<open>
  The dispatch loop of \<open>multipartDownload\<close> with workers that receive, as that of
  \<open>multipartUpload\<close>: the workers write to the file, each at the offset of its
  range, and are run here in the order of dispatch.
\<close>

partial_function (option) dispatch_d ::
  "DownloadEnv \<Rightarrow> Downloader \<Rightarrow> (Downloader \<times> (Range \<times> error option) list) option" where
  "dispatch_d env d =
     (case Downloader_getNextRange d of
        (None, d1) \<Rightarrow> Some (d1, [])
      | (Some r, d1) \<Rightarrow>
          (case downloadPart env d1 r of
             (err, d2) \<Rightarrow>
               Option.bind (dispatch_d env d2)
                 (\<lambda>(d3, done). Some (d3, (r, err) # done))))"

text \<open>\<open>multipartDownload(jobs)\<close>, as \<open>multipartUpload(jobs)\<close>.\<close>

definition multipartDownload ::
  "DownloadEnv \<Rightarrow> int \<Rightarrow> Downloader
     \<Rightarrow> (error + Downloader \<times> (Range \<times> error option) list) option" where
  "multipartDownload env jobs d =
     (if jobs < 0 then Some (Inl NegativeCounter)
      else if jobs = 0 then
        (case Downloader_getNextRange d of
           (None, d1) \<Rightarrow> Some (Inr (d1, []))
         | (Some r, d1) \<Rightarrow> None)
      else map_option Inr (dispatch_d env d))"

definition checkJob :: "DownloadEnv \<Rightarrow> Downloader \<Rightarrow> error + Downloader" where
  "checkJob env d =
     (case DescribeJob env of
        Inl err \<Rightarrow> Inl err
      | Inr result \<Rightarrow>
          if Action result \<noteq> ''ArchiveRetrieval''
            then Inl (ErrorMsg (Action result @ '' action is not supported''))
          else if StatusCode result \<noteq> ''Succeeded'' then
            (if StatusCode result = ''InProgress''
               then Inl (ErrorMsg ''the job is not succeeded yet'')
             else if StatusCode result = ''Failed''
               then (case StatusMessage result of
                       None \<Rightarrow> Inl NilDereference
                     | Some message \<Rightarrow> Inl (ErrorMsg (''the job is failed: '' @ message)))
             else Inl (ErrorMsg (''job status is unexpected: '' @ StatusCode result)))
          else
            (case SHA256TreeHash_job result of
               None \<Rightarrow> Inl (ErrorMsg ''the retrieved range must be tree-hash aligned'')
             | Some hash \<Rightarrow>
                 (case ArchiveSizeInBytes result of
                    None \<Rightarrow> Inl NilDereference
                  | Some n \<Rightarrow> Inr (d\<lparr>size_d := n, treeHash := Some hash\<rparr>))))"

definition checkTreeHash :: "Downloader \<Rightarrow> error option" where
  "checkTreeHash d =
     (case ComputeTreeHash (file_d d) of
        None \<Rightarrow> Some (ErrorMsg ''could not compute hash'')
      | Some local \<Rightarrow>
          (case treeHash d of
             None \<Rightarrow> Some NilDereference
           | Some expected \<Rightarrow>
               if local \<noteq> expected then Some (ErrorMsg ''hash mismatch'') else None))"

text \<open>\<open>Download\<close>, with the result of \<open>Upload\<close>'s shape.\<close>

definition Download ::
  "DownloadEnv \<Rightarrow> int \<Rightarrow> Downloader
     \<Rightarrow> ((Range \<times> error option) list \<times> error option) option" where
  "Download env jobs d =
     (case checkJob env d of
        Inl err \<Rightarrow> Some ([], Some err)
      | Inr d1 \<Rightarrow>
     (case openFile_d env d1 of
        Inl err \<Rightarrow> Some ([], Some err)
      | Inr d2 \<Rightarrow>
     (case Truncate env d2 of
        Inl err \<Rightarrow> Some ([], Some err)
      | Inr d3 \<Rightarrow>
     (case multipartDownload env jobs d3 of
        None \<Rightarrow> None
      | Some (Inl err) \<Rightarrow> Some ([], Some err)
      | Some (Inr (d4, done)) \<Rightarrow> Some (done, checkTreeHash d4)))))"

section \<open>The words of the claims\<close>

text \<open>
  The words of the specification for a text that is a range: exactly one separator,
  both sides non-negative integers, and the end not less than the start. A text is
  read as a non-negative integer when it is a non-empty string of decimal digits,
  after a plus sign or without one, whose value is an \<open>int64\<close>.
\<close>

definition decimalValue :: "string \<Rightarrow> nat option" where
  "decimalValue t =
     (if t \<noteq> [] \<and> list_all isDigit t
      then Some (foldl (\<lambda>v c. 10 * v + digitVal c) 0 t) else None)"

definition nonNegativeInteger :: "string \<Rightarrow> int option" where
  "nonNegativeInteger t =
     (case decimalValue (if t \<noteq> [] \<and> hd t = CHR ''+'' then tl t else t) of
        None \<Rightarrow> None
      | Some v \<Rightarrow> if int v \<le> maxInt64 then Some (int v) else None)"

text \<open>The start and the end of a text with one separator and two such sides.\<close>

definition startEnd :: "string \<Rightarrow> (int \<times> int) option" where
  "startEnd s =
     (if count_list s CHR ''-'' = 1 then
        (case nonNegativeInteger (takeWhile (\<lambda>c. c \<noteq> CHR ''-'') s) of
           None \<Rightarrow> None
         | Some a \<Rightarrow>
             (case nonNegativeInteger (tl (dropWhile (\<lambda>c. c \<noteq> CHR ''-'') s)) of
                None \<Rightarrow> None
              | Some b \<Rightarrow> Some (a, b)))
      else None)"

definition invalid_range_text :: "string \<Rightarrow> bool" where
  "invalid_range_text s = (case startEnd s of None \<Rightarrow> True | Some (a, b) \<Rightarrow> b < a)"

text \<open>
  What these words leave out: the length \<open>end - start + 1\<close> of the range does not
  fit in an \<open>int64\<close>.
\<close>

definition length_overflows :: "string \<Rightarrow> bool" where
  "length_overflows s =
     (case startEnd s of None \<Rightarrow> False | Some (a, b) \<Rightarrow> maxInt64 < b - a + 1)"



section \<open>Example surroundings, after the mocks of the tests\<close>

definition env_job :: "DescribeJobOutput \<Rightarrow> DownloadEnv" where
  "env_job job =
     \<lparr>DescribeJob = Inr job, CreateFile = None, TruncateFile = None,
      WriteFile = (\<lambda>offset. None),
      GetJobOutput = (\<lambda>range. Inl (ErrorMsg ''test''))\<rparr>"

definition job_unsupported :: DescribeJobOutput where
  "job_unsupported =
     \<lparr>Action = ''test'', StatusCode = [], StatusMessage = None,
      ArchiveSizeInBytes = None, SHA256TreeHash_job = None\<rparr>"

definition job_status :: "string \<Rightarrow> string option \<Rightarrow> DescribeJobOutput" where
  "job_status status message =
     \<lparr>Action = ''ArchiveRetrieval'', StatusCode = status, StatusMessage = message,
      ArchiveSizeInBytes = None, SHA256TreeHash_job = None\<rparr>"

definition job_succeeded :: "int \<Rightarrow> string \<Rightarrow> DescribeJobOutput" where
  "job_succeeded n hash =
     \<lparr>Action = ''ArchiveRetrieval'', StatusCode = ''Succeeded'', StatusMessage = None,
      ArchiveSizeInBytes = Some n, SHA256TreeHash_job = Some hash\<rparr>"

definition job_failed_no_message :: DescribeJobOutput where
  "job_failed_no_message =
     \<lparr>Action = ''ArchiveRetrieval'', StatusCode = ''Failed'', StatusMessage = None,
      ArchiveSizeInBytes = None, SHA256TreeHash_job = None\<rparr>"

definition uploader_test :: Uploader where
  "uploader_test =
     \<lparr>UploadId = ''test_id'', PartSize_u = 123, uploaded = {}, file_u = bytesOf ''test'',
      size_u = 4, offset_u = 0\<rparr>"

definition part_ok :: PartListElement where
  "part_ok =
     \<lparr>RangeInBytes = Some ''0-3'',
      SHA256TreeHash = Some ''9f86d081884c7d659a2feaa0c55ad015a3bf4f1b2b0b822cd15d6c15b0f00a08''\<rparr>"

definition part_not_ok :: PartListElement where
  "part_not_ok = \<lparr>RangeInBytes = Some ''0-3'', SHA256TreeHash = Some ''test_hash''\<rparr>"

definition part_no_checksum :: PartListElement where
  "part_no_checksum = \<lparr>RangeInBytes = Some ''0-3'', SHA256TreeHash = None\<rparr>"

definition env_upload :: "ListPartsOutput list \<Rightarrow> UploadEnv" where
  "env_upload pages =
     \<lparr>OpenFile = Inr (False, 4, bytesOf ''test''),
      InitiateMultipartUpload = Inl (ErrorMsg ''test''),
      ListParts = (pages, None),
      UploadMultipartPart = (\<lambda>input. Some (ErrorMsg ''test'')),
      CompleteMultipartUpload = (\<lambda>archiveSize checksum. Inl (ErrorMsg ''test''))\<rparr>"





section \<open>Properties of the functions\<close>

subsection \<open>Splitting, parsing and printing\<close>

lemma Split_not_Nil [simp]: "Split s sep \<noteq> []"
  by (induction s) (auto split: list.splits)

lemma length_Split: "length (Split s sep) = Suc (count_list s sep)"
  by (induction s) (auto split: list.splits)

lemma Split_no_sep: "sep \<notin> set a \<Longrightarrow> Split a sep = [a]"
  by (induction a) auto

lemma Split_append: "sep \<notin> set a \<Longrightarrow> Split (a @ sep # rest) sep = a # Split rest sep"
  by (induction a) auto

lemma Split_two: "sep \<notin> set a \<Longrightarrow> sep \<notin> set b \<Longrightarrow> Split (a @ sep # b) sep = [a, b]"
  by (simp add: Split_append Split_no_sep)

lemma Split_takeWhile:
  "Split s sep = takeWhile (\<lambda>c. c \<noteq> sep) s #
      (if sep \<in> set s then Split (tl (dropWhile (\<lambda>c. c \<noteq> sep) s)) sep else [])"
  by (induction s) (auto split: list.splits)

lemma digitChar_cases:
  "d < 10 \<Longrightarrow>
   d = 0 \<or> d = 1 \<or> d = 2 \<or> d = 3 \<or> d = 4 \<or> d = 5 \<or> d = 6 \<or> d = 7 \<or> d = 8 \<or> d = (9::nat)"
  by arith

lemma isDigit_digitChar: "d < 10 \<Longrightarrow> isDigit (digitChar d)"
  using digitChar_cases[of d] by (auto simp: isDigit_def digitChar_def)

lemma digitVal_digitChar: "d < 10 \<Longrightarrow> digitVal (digitChar d) = d"
  using digitChar_cases[of d] by (auto simp: digitVal_def digitChar_def)

lemma digitsVal_snoc:
  "digitsVal acc (xs @ [c]) =
     (case digitsVal acc xs of None \<Rightarrow> None
      | Some v \<Rightarrow> if isDigit c then Some (10 * v + digitVal c) else None)"
  by (induction xs arbitrary: acc) auto

lemma digitsVal_decimal: "digitsVal 0 (decimal n) = Some n"
proof (induction n rule: decimal.induct)
  case (1 n)
  show ?case
  proof (cases "n < 10")
    case True
    then show ?thesis
      by (subst decimal.simps) (simp add: isDigit_digitChar digitVal_digitChar)
  next
    case False
    with 1 have "digitsVal 0 (decimal (n div 10)) = Some (n div 10)" by simp
    with False show ?thesis
      by (subst decimal.simps) (simp add: digitsVal_snoc isDigit_digitChar digitVal_digitChar)
  qed
qed

lemma decimal_digits: "c \<in> set (decimal n) \<Longrightarrow> isDigit c"
proof (induction n rule: decimal.induct)
  case (1 n)
  then show ?case
    by (subst (asm) (2) decimal.simps) (auto simp: isDigit_digitChar split: if_splits)
qed

lemma decimal_not_Nil: "decimal n \<noteq> []"
  by (subst decimal.simps) simp

lemma wrap64_id: "minInt64 \<le> x \<Longrightarrow> x \<le> maxInt64 \<Longrightarrow> wrap64 x = x"
  by (simp add: wrap64_def minInt64_def maxInt64_def)

lemma wrap64_range: "minInt64 \<le> wrap64 x \<and> wrap64 x \<le> maxInt64"
  by (simp add: wrap64_def minInt64_def maxInt64_def)

lemma wrap64_over: "wrap64 (maxInt64 + 1) = minInt64"
  by (simp add: wrap64_def minInt64_def maxInt64_def)

lemma wrap64_wrap64_add: "wrap64 (wrap64 x + y) = wrap64 (x + y)"
proof -
  have "(wrap64 x + y + 9223372036854775808) mod 18446744073709551616
      = ((x + 9223372036854775808) mod 18446744073709551616 + y) mod 18446744073709551616"
    by (simp add: wrap64_def)
  also have "\<dots> = (x + 9223372036854775808 + y) mod 18446744073709551616"
    by (rule mod_add_left_eq)
  finally have "(wrap64 x + y + 9223372036854775808) mod 18446744073709551616
      = (x + 9223372036854775808 + y) mod 18446744073709551616" .
  moreover have "x + 9223372036854775808 + y = x + y + 9223372036854775808"
    by arith
  ultimately show ?thesis
    by (simp only: wrap64_def)
qed

lemma wrap64_wrap64_diff: "wrap64 (wrap64 x - y) = wrap64 (x - y)"
  using wrap64_wrap64_add[of x "- y"] by simp

lemma ParseUint_bounds: "ParseUint t = Some v \<Longrightarrow> v < 18446744073709551616"
  by (auto simp: ParseUint_def split: if_splits option.splits)

lemma ParseInt_bounds: "ParseInt t = Some v \<Longrightarrow> minInt64 \<le> v \<and> v \<le> maxInt64"
  by (auto simp: ParseInt_def Let_def minInt64_def maxInt64_def split: if_splits option.splits)

lemma ParseInt_nonneg: "ParseInt t = Some v \<Longrightarrow> CHR ''-'' \<notin> set t \<Longrightarrow> 0 \<le> v"
  by (cases t) (auto simp: ParseInt_def Let_def split: if_splits option.splits)

lemma count_list_0: "count_list xs x = 0 \<longleftrightarrow> x \<notin> set xs"
  by (induction xs) auto

lemma count_list_dropWhile:
  "x \<in> set xs \<Longrightarrow> count_list xs x = Suc (count_list (tl (dropWhile (\<lambda>c. c \<noteq> x) xs)) x)"
  by (induction xs) auto

lemma digitsVal_foldl:
  "digitsVal acc t =
     (if list_all isDigit t then Some (foldl (\<lambda>v c. 10 * v + digitVal c) acc t) else None)"
  by (induction t arbitrary: acc) auto

lemma ParseUint_decimalValue:
  "ParseUint t =
     (case decimalValue t of
        None \<Rightarrow> None
      | Some v \<Rightarrow> if v \<ge> 18446744073709551616 then None else Some v)"
  by (simp add: ParseUint_def decimalValue_def digitsVal_foldl)

lemma ParseInt_nonNegativeInteger:
  assumes "CHR ''-'' \<notin> set t"
  shows "ParseInt t = nonNegativeInteger t"
proof (cases t)
  case Nil
  then show ?thesis
    by (simp add: ParseInt_def nonNegativeInteger_def decimalValue_def)
next
  case (Cons c cs)
  with assms have "c \<noteq> CHR ''-''" by auto
  with Cons show ?thesis
    by (auto simp: ParseInt_def nonNegativeInteger_def ParseUint_decimalValue maxInt64_def
        split: option.splits)
qed

lemma startEnd_ParseInt:
  "startEnd s =
     (if count_list s CHR ''-'' = 1 then
        (case ParseInt (takeWhile (\<lambda>c. c \<noteq> CHR ''-'') s) of
           None \<Rightarrow> None
         | Some a \<Rightarrow>
             (case ParseInt (tl (dropWhile (\<lambda>c. c \<noteq> CHR ''-'') s)) of
                None \<Rightarrow> None
              | Some b \<Rightarrow> Some (a, b)))
      else None)"
proof (cases "count_list s CHR ''-'' = 1")
  case False
  then show ?thesis by (simp add: startEnd_def)
next
  case True
  let ?l = "takeWhile (\<lambda>c. c \<noteq> CHR ''-'') s"
  let ?r = "tl (dropWhile (\<lambda>c. c \<noteq> CHR ''-'') s)"
  have nl: "CHR ''-'' \<notin> set ?l"
    by (auto dest: set_takeWhileD)
  from True have "CHR ''-'' \<in> set s"
    using count_list_0[of s "CHR ''-''"] by auto
  with True have "count_list ?r CHR ''-'' = 0"
    using count_list_dropWhile[of "CHR ''-''" s] by simp
  then have nr: "CHR ''-'' \<notin> set ?r"
    by (simp add: count_list_0)
  show ?thesis
    unfolding startEnd_def ParseInt_nonNegativeInteger[OF nl]
      ParseInt_nonNegativeInteger[OF nr] ..
qed

lemma Split_one_sep:
  assumes "count_list s sep = 1"
  shows "Split s sep = [takeWhile (\<lambda>c. c \<noteq> sep) s, tl (dropWhile (\<lambda>c. c \<noteq> sep) s)]"
proof -
  from assms have in_s: "sep \<in> set s"
    using count_list_0[of s sep] by auto
  with assms have "count_list (tl (dropWhile (\<lambda>c. c \<noteq> sep) s)) sep = 0"
    using count_list_dropWhile[of sep s] by simp
  then have "sep \<notin> set (tl (dropWhile (\<lambda>c. c \<noteq> sep) s))"
    by (simp add: count_list_0)
  then have "Split (tl (dropWhile (\<lambda>c. c \<noteq> sep) s)) sep = [tl (dropWhile (\<lambda>c. c \<noteq> sep) s)]"
    by (rule Split_no_sep)
  with in_s show ?thesis
    by (subst Split_takeWhile) simp
qed

lemma limit_value:
  assumes "0 \<le> a" "a \<le> maxInt64" "0 \<le> b" "b \<le> maxInt64"
  shows "wrap64 (wrap64 (b - a) + 1) = (if maxInt64 < b - a + 1 then minInt64 else b - a + 1)"
proof -
  have eq: "wrap64 (wrap64 (b - a) + 1) = wrap64 (b - a + 1)"
    by (rule wrap64_wrap64_add)
  show ?thesis
  proof (cases "maxInt64 < b - a + 1")
    case True
    with assms have "b - a + 1 = maxInt64 + 1" by simp
    with True eq show ?thesis by (simp add: wrap64_over)
  next
    case False
    moreover from assms have "minInt64 \<le> b - a + 1" by (simp add: minInt64_def maxInt64_def)
    ultimately show ?thesis using eq by (simp add: wrap64_id)
  qed
qed

lemma RangeFromString_char:
  "RangeFromString s =
     (case startEnd s of
        None \<Rightarrow> None
      | Some (a, b) \<Rightarrow>
          if b < a \<or> maxInt64 < b - a + 1 then None
          else Some \<lparr>Offset = a, Limit = b - a + 1\<rparr>)"
proof (cases "count_list s CHR ''-'' = 1")
  case False
  then have "length (Split s CHR ''-'') \<noteq> 2"
    by (simp add: length_Split)
  with False show ?thesis
    by (simp add: RangeFromString_def startEnd_ParseInt)
next
  case True
  let ?l = "takeWhile (\<lambda>c. c \<noteq> CHR ''-'') s"
  let ?r = "tl (dropWhile (\<lambda>c. c \<noteq> CHR ''-'') s)"
  have split: "Split s CHR ''-'' = [?l, ?r]"
    using True by (rule Split_one_sep)
  have nl: "CHR ''-'' \<notin> set ?l"
    by (auto dest: set_takeWhileD)
  from True have "CHR ''-'' \<in> set s"
    using count_list_0[of s "CHR ''-''"] by auto
  with True have "count_list ?r CHR ''-'' = 0"
    using count_list_dropWhile[of "CHR ''-''" s] by simp
  then have nr: "CHR ''-'' \<notin> set ?r"
    by (simp add: count_list_0)
  show ?thesis
  proof (cases "ParseInt ?l")
    case None
    with True split show ?thesis
      by (simp add: RangeFromString_def startEnd_ParseInt)
  next
    case (Some a)
    note a = this
    show ?thesis
    proof (cases "ParseInt ?r")
      case None
      with True split a show ?thesis
        by (simp add: RangeFromString_def startEnd_ParseInt)
    next
      case (Some b)
      from a nl have a0: "0 \<le> a" by (rule ParseInt_nonneg)
      from Some nr have b0: "0 \<le> b" by (rule ParseInt_nonneg)
      from a have a1: "a \<le> maxInt64" by (simp add: ParseInt_bounds)
      from Some have b1: "b \<le> maxInt64" by (simp add: ParseInt_bounds)
      have lim: "wrap64 (wrap64 (b - a) + 1) = (if maxInt64 < b - a + 1 then minInt64 else b - a + 1)"
        using a0 a1 b0 b1 by (rule limit_value)
      have se: "startEnd s = Some (a, b)"
        using True a Some by (simp add: startEnd_ParseInt)
      show ?thesis
        using split a Some
        by (auto simp: RangeFromString_def se lim Let_def minInt64_def maxInt64_def)
    qed
  qed
qed

lemma not_isDigit_signs: "\<not> isDigit CHR ''-''" "\<not> isDigit CHR ''+''"
  by (simp_all add: isDigit_def)

lemma dash_notin_decimal: "CHR ''-'' \<notin> set (decimal n)"
  using decimal_digits not_isDigit_signs(1) by blast

lemma hd_decimal_digit: "isDigit (hd (decimal n))"
  using decimal_digits[of "hd (decimal n)" n] decimal_not_Nil[of n] by simp

lemma ParseInt_decimal:
  assumes "n < 9223372036854775808"
  shows "ParseInt (decimal n) = Some (int n)"
proof -
  have "hd (decimal n) \<noteq> CHR ''-''" "hd (decimal n) \<noteq> CHR ''+''"
    using hd_decimal_digit[of n] not_isDigit_signs by auto
  moreover have "ParseUint (decimal n) = Some n"
    using assms by (simp add: ParseUint_def decimal_not_Nil digitsVal_decimal)
  ultimately show ?thesis
    using assms by (simp add: ParseInt_def decimal_not_Nil)
qed

lemma Range_String_nonneg:
  assumes "0 \<le> Offset r" "1 \<le> Limit r" "Offset r + Limit r - 1 \<le> maxInt64"
  shows "Range_String r = decimal (nat (Offset r)) @ ''-'' @ decimal (nat (Offset r + Limit r - 1))"
proof -
  have "wrap64 (wrap64 (Offset r + Limit r) - 1) = wrap64 (Offset r + Limit r - 1)"
    by (rule wrap64_wrap64_diff)
  also have "\<dots> = Offset r + Limit r - 1"
    using assms by (intro wrap64_id) (simp_all add: minInt64_def)
  finally show ?thesis
    using assms by (simp add: Range_String_def FormatInt_def)
qed

lemma RangeFromString_Range_String:
  assumes "0 \<le> Offset r" "1 \<le> Limit r" "Offset r + Limit r - 1 \<le> maxInt64"
    and "Limit r \<le> maxInt64"
  shows "RangeFromString (Range_String r) = Some \<lparr>Offset = Offset r, Limit = Limit r\<rparr>"
proof -
  let ?a = "nat (Offset r)" and ?b = "nat (Offset r + Limit r - 1)"
  have a: "ParseInt (decimal ?a) = Some (Offset r)"
    using assms ParseInt_decimal[of ?a] by (simp add: maxInt64_def)
  have b: "ParseInt (decimal ?b) = Some (Offset r + Limit r - 1)"
    using assms ParseInt_decimal[of ?b] by (simp add: maxInt64_def)
  have split: "Split (Range_String r) CHR ''-'' = [decimal ?a, decimal ?b]"
    using assms by (simp add: Range_String_nonneg Split_two dash_notin_decimal)
  have "wrap64 (Limit r) = Limit r"
    using assms by (intro wrap64_id) (simp_all add: minInt64_def)
  then have "wrap64 (wrap64 (Offset r + Limit r - 1 - Offset r) + 1) = Limit r"
    by (simp add: wrap64_wrap64_add)
  then show ?thesis
    using assms by (simp add: RangeFromString_def split a b)
qed

subsection \<open>The tree hash\<close>

lemma chunks_Nil_iff: "chunks n xs = [] \<longleftrightarrow> n = 0 \<or> xs = []"
  by (subst chunks.simps) simp

lemma chunks_single:
  assumes "xs \<noteq> []" "length xs \<le> n"
  shows "chunks n xs = [xs]"
proof -
  from assms have "0 < n" by (cases xs) auto
  with assms show ?thesis
    by (subst chunks.simps, subst chunks.simps) simp
qed

lemma pairUp_Nil_iff: "pairUp hs = [] \<longleftrightarrow> hs = []"
  by (cases hs rule: pairUp.cases) auto

lemma buildHashTree_None_iff: "buildHashTree hs = None \<longleftrightarrow> hs = []"
proof (induction hs rule: buildHashTree.induct)
  case (1 hashes)
  show ?case
  proof (cases "hashes = [] \<or> length hashes = 1")
    case True
    then show ?thesis by (subst buildHashTree.simps) auto
  next
    case False
    with 1 have "buildHashTree (pairUp hashes) = None \<longleftrightarrow> pairUp hashes = []" by simp
    with False show ?thesis
      by (subst buildHashTree.simps) (simp add: pairUp_Nil_iff)
  qed
qed

lemma TreeHash_None_iff: "ComputeHashes_TreeHash r = None \<longleftrightarrow> r = []"
  by (simp add: ComputeHashes_TreeHash_def buildHashTree_None_iff chunks_Nil_iff)

lemma TreeHash_single_chunk:
  "r \<noteq> [] \<Longrightarrow> length r \<le> 1048576 \<Longrightarrow> ComputeHashes_TreeHash r = Some (sha256 r)"
  by (simp add: ComputeHashes_TreeHash_def chunks_single buildHashTree.simps)

lemma ComputeTreeHash_None_iff: "ComputeTreeHash r = None \<longleftrightarrow> r = []"
  using TreeHash_None_iff[of r] by (cases "ComputeHashes_TreeHash r") (auto simp: ComputeTreeHash_def)

lemma ComputeTreeHash_single_chunk:
  "r \<noteq> [] \<Longrightarrow> length r \<le> 1048576 \<Longrightarrow> ComputeTreeHash r = Some (EncodeToString (sha256 r))"
  by (simp add: ComputeTreeHash_def TreeHash_single_chunk)

lemma sha256_test:
  "EncodeToString (sha256 (bytesOf ''test''))
     = ''9f86d081884c7d659a2feaa0c55ad015a3bf4f1b2b0b822cd15d6c15b0f00a08''"
  by code_simp


lemma length_round256: "length (round256 kw hs) = length hs"
  by (cases "(kw, hs)" rule: round256.cases) auto

lemma length_fold_round256: "length (fold round256 kws hs) = length hs"
  by (induction kws arbitrary: hs) (auto simp: length_round256)

lemma length_block256: "length (block256 hs p) = length hs"
  by (simp add: block256_def length_fold_round256)

lemma length_blocks256: "length (blocks256 hs p) = length hs"
proof (induction hs p rule: blocks256.induct)
  case (1 hs p)
  then show ?case
    by (subst blocks256.simps) (simp add: length_block256)
qed

lemma length_concat_bytes32: "length (concat (map bytes32 ws)) = 4 * length ws"
  by (induction ws) (auto simp: bytes32_def)

lemma length_sha256: "length (sha256 m) = 32"
  by (simp add: sha256_def length_concat_bytes32 length_blocks256 H256_def)

lemma length_EncodeToString: "length (EncodeToString bs) = 2 * length bs"
  by (induction bs) (auto simp: EncodeToString_def)

lemma length_buildHashTree:
  "buildHashTree hs = Some h \<Longrightarrow> \<forall>x \<in> set hs. length x = 32 \<Longrightarrow> length h = 32"
proof (induction hs rule: buildHashTree.induct)
  case (1 hashes)
  show ?case
  proof (cases "length hashes = 1")
    case True
    with 1(2,3) show ?thesis
      by (subst (asm) buildHashTree.simps) (cases hashes, auto)
  next
    case False
    with 1(2) have ne: "hashes \<noteq> []" and rec: "buildHashTree (pairUp hashes) = Some h"
      by (subst (asm) buildHashTree.simps, auto split: if_splits)+
    have "\<forall>x \<in> set (pairUp hashes). length x = 32"
      using 1(3) by (induction hashes rule: pairUp.induct) (auto simp: length_sha256)
    with 1(1)[OF ne False rec] show ?thesis .
  qed
qed

lemma length_ComputeTreeHash: "ComputeTreeHash r = Some h \<Longrightarrow> length h = 64"
proof -
  assume a: "ComputeTreeHash r = Some h"
  then obtain t where t: "ComputeHashes_TreeHash r = Some t" and h: "h = EncodeToString t"
    by (auto simp: ComputeTreeHash_def split: option.splits)
  from t have "length t = 32"
    unfolding ComputeHashes_TreeHash_def
    by (rule length_buildHashTree) (auto simp: length_sha256)
  with h show ?thesis by (simp add: length_EncodeToString)
qed

subsection \<open>Reconciliation and the upload cursor\<close>

lemma checkPart_preserves:
  "checkPart s part = Inr (ok, s1) \<Longrightarrow>
     uploaded s \<subseteq> uploaded s1 \<and> PartSize_u s1 = PartSize_u s \<and> size_u s1 = size_u s
     \<and> offset_u s1 = offset_u s \<and> file_u s1 = file_u s \<and> UploadId s1 = UploadId s"
  by (auto simp: checkPart_def split: option.splits if_splits)

lemma checkParts_preserves:
  "checkParts s parts = Inr s1 \<Longrightarrow>
     uploaded s \<subseteq> uploaded s1 \<and> PartSize_u s1 = PartSize_u s \<and> size_u s1 = size_u s
     \<and> offset_u s1 = offset_u s \<and> file_u s1 = file_u s \<and> UploadId s1 = UploadId s"
proof (induction parts arbitrary: s)
  case Nil
  then show ?case by simp
next
  case (Cons part parts)
  from Cons.prems obtain ok s2 where
    a: "checkPart s part = Inr (ok, s2)" and b: "checkParts s2 parts = Inr s1"
    by (auto split: sum.splits)
  from checkPart_preserves[OF a] Cons.IH[OF b] show ?case by auto
qed

lemma checkPages_preserves:
  "checkPages s pages = Inr s1 \<Longrightarrow>
     uploaded s \<subseteq> uploaded s1 \<and> PartSize_u s1 = PartSize_u s \<and> size_u s1 = size_u s
     \<and> offset_u s1 = offset_u s \<and> file_u s1 = file_u s \<and> UploadId s1 = UploadId s"
proof (induction pages arbitrary: s)
  case Nil
  then show ?case by simp
next
  case (Cons page pages)
  from Cons.prems obtain s2 where
    a: "checkParts s (Parts page) = Inr s2" and b: "checkPages s2 pages = Inr s1"
    by (auto split: sum.splits option.splits if_splits)
  from checkParts_preserves[OF a] Cons.IH[OF b] show ?case by auto
qed

lemma checkPages_append:
  "checkPages s (pre @ pages) =
     (case checkPages s pre of Inl err \<Rightarrow> Inl err | Inr s1 \<Rightarrow> checkPages s1 pages)"
  by (induction pre arbitrary: s) (auto split: sum.splits option.splits)


lemma openFile_u_PartSize: "openFile_u env s = Inr s1 \<Longrightarrow> PartSize_u s1 = PartSize_u s"
  by (auto simp: openFile_u_def split: sum.splits if_splits)

lemma initiateUpload_PartSize: "initiateUpload env s = Inr s1 \<Longrightarrow> PartSize_u s1 = PartSize_u s"
  by (auto simp: initiateUpload_def split: sum.splits if_splits option.splits)


lemma nextOffset_Some:
  assumes "nextOffset s = Some y"
  shows "uploaded (snd y) = uploaded s \<and> PartSize_u (snd y) = PartSize_u s
     \<and> size_u (snd y) = size_u s \<and> file_u (snd y) = file_u s
     \<and> (case fst y of None \<Rightarrow> True | Some off \<Rightarrow> off \<notin> uploaded s)"
  using assms
proof (induction rule: nextOffset.raw_induct[rotated, consumes 1, case_names step])
  case (step f s y)
  show ?case
  proof (cases "size_u s \<le> offset_u s \<or> offset_u s \<notin> uploaded s")
    case True
    with step(2) show ?thesis by (auto split: if_splits)
  next
    case False
    with step(2) have "f (s\<lparr>offset_u := wrap64 (offset_u s + PartSize_u s)\<rparr>) = Some y"
      by (simp split: if_splits)
    from step(1)[OF this] show ?thesis by (simp split: option.splits)
  qed
qed

lemma getNextRange_not_uploaded:
  assumes "Uploader_getNextRange s = Some (Some r, s1)"
  shows "Offset r \<notin> uploaded s \<and> uploaded s1 = uploaded s"
proof -
  from assms obtain off where n: "nextOffset s = Some (Some off, s1)"
    and r: "r = rangeAt (PartSize_u s1) (size_u s1) off"
    by (auto simp: Uploader_getNextRange_def split: option.splits)
  from nextOffset_Some[OF n] r show ?thesis
    by (simp add: rangeAt_def)
qed



lemma dispatch_u_stop:
  "Uploader_getNextRange s = Some (None, s1) \<Longrightarrow> dispatch_u env s = Some (s1, [])"
  by (subst dispatch_u.simps) simp


lemma dispatch_u_not_uploaded:
  assumes "dispatch_u env s = Some y"
  shows "Offset ` fst ` set (snd y) \<inter> uploaded s = {}"
  using assms
proof (induction rule: dispatch_u.raw_induct[rotated, consumes 1, case_names step])
  case (step f env s y)
  show ?case
  proof (cases "Uploader_getNextRange s")
    case None
    with step(2) show ?thesis by simp
  next
    case (Some a)
    obtain p s1 where a: "a = (p, s1)" by (cases a)
    show ?thesis
    proof (cases p)
      case None
      with step(2) Some a show ?thesis by auto
    next
      case (Some r)
      with step(2) \<open>Uploader_getNextRange s = Some a\<close> a obtain s2 rest where
        rec: "f env s1 = Some (s2, rest)"
        and y: "y = (s2, (r, uploadPart env s1 r) # rest)"
        by (auto simp: bind_eq_Some_conv)
      from \<open>Uploader_getNextRange s = Some a\<close> a Some
      have "Offset r \<notin> uploaded s \<and> uploaded s1 = uploaded s"
        by (intro getNextRange_not_uploaded) simp
      with step(1)[OF rec] y show ?thesis by auto
    qed
  qed
qed

lemma multipartUpload_Inr:
  assumes "multipartUpload env jobs s = Some (Inr res)"
  shows "dispatch_u env s = Some res"
proof (cases "jobs = 0")
  case True
  with assms obtain s1 where "Uploader_getNextRange s = Some (None, s1)" "res = (s1, [])"
    by (auto simp: multipartUpload_def split: option.splits prod.splits)
  then show ?thesis by (simp add: dispatch_u_stop)
next
  case False
  with assms show ?thesis by (auto simp: multipartUpload_def split: if_splits)
qed





subsection \<open>The download\<close>

lemma downloadPart_preserves:
  "downloadPart env d r = (err, d1) \<Longrightarrow>
     PartSize_d d1 = PartSize_d d \<and> size_d d1 = size_d d \<and> offset_d d1 = offset_d d
     \<and> treeHash d1 = treeHash d"
  by (auto simp: downloadPart_def split: sum.splits if_splits)

lemma Downloader_getNextRange_preserves:
  "Downloader_getNextRange d = (r, d1) \<Longrightarrow>
     PartSize_d d1 = PartSize_d d \<and> size_d d1 = size_d d \<and> treeHash d1 = treeHash d
     \<and> file_d d1 = file_d d"
  by (auto simp: Downloader_getNextRange_def split: if_splits)

lemma getNextRange_same:
  assumes "Downloader_getNextRange d = (Some r, dn)"
    and "PartSize_d d' = PartSize_d d" "size_d d' = size_d d" "offset_d d' = offset_d d"
  shows "\<exists>dn'. Downloader_getNextRange d' = (Some r, dn') \<and> PartSize_d dn' = PartSize_d dn
           \<and> size_d dn' = size_d dn \<and> offset_d dn' = offset_d dn"
proof -
  from assms(1) have lt: "\<not> size_d d \<le> offset_d d"
    by (auto simp: Downloader_getNextRange_def split: if_splits)
  with assms(1) have r: "r = rangeAt (PartSize_d d) (size_d d) (offset_d d)"
    and dn: "dn = d\<lparr>offset_d := wrap64 (offset_d d + PartSize_d d)\<rparr>"
    by (simp_all add: Downloader_getNextRange_def)
  from lt assms(2-4) r dn show ?thesis
    by (simp add: Downloader_getNextRange_def)
qed

lemma dispatch_d_at_end:
  "size_d d \<le> offset_d d \<Longrightarrow> dispatch_d env d = Some (d, [])"
  by (subst dispatch_d.simps) (simp add: Downloader_getNextRange_def)

lemma dispatch_d_stop:
  "Downloader_getNextRange d = (None, d1) \<Longrightarrow> dispatch_d env d = Some (d1, [])"
  by (subst dispatch_d.simps) simp

lemma dispatch_d_step:
  "Downloader_getNextRange d = (Some r, d1) \<Longrightarrow> downloadPart env d1 r = (err, d2) \<Longrightarrow>
   dispatch_d env d
     = Option.bind (dispatch_d env d2) (\<lambda>(d3, done). Some (d3, (r, err) # done))"
  by (subst dispatch_d.simps) simp

lemma dispatch_d_treeHash:
  assumes "dispatch_d env d = Some y"
  shows "treeHash (fst y) = treeHash d"
  using assms
proof (induction rule: dispatch_d.raw_induct[rotated, consumes 1, case_names step])
  case (step f env d y)
  obtain p d1 where g: "Downloader_getNextRange d = (p, d1)"
    by (cases "Downloader_getNextRange d")
  show ?case
  proof (cases p)
    case None
    with step(2) g Downloader_getNextRange_preserves[OF g] show ?thesis by auto
  next
    case (Some r)
    obtain err d2 where dp: "downloadPart env d1 r = (err, d2)"
      by (cases "downloadPart env d1 r")
    with step(2) g Some obtain d3 rest where rec: "f env d2 = Some (d3, rest)"
      and y: "y = (d3, (r, err) # rest)"
      by (auto simp: bind_eq_Some_conv)
    from step(1)[OF rec] y downloadPart_preserves[OF dp] Downloader_getNextRange_preserves[OF g]
    show ?thesis by simp
  qed
qed

lemma dispatch_d_same_ranges:
  assumes "dispatch_d env d = Some (d1, done)"
    and "PartSize_d d' = PartSize_d d" "size_d d' = size_d d" "offset_d d' = offset_d d"
  shows "\<exists>d1' done'. dispatch_d env' d' = Some (d1', done') \<and> map fst done' = map fst done"
  using assms
proof (induction "done" arbitrary: d d')
  case Nil
  obtain p dn where g: "Downloader_getNextRange d = (p, dn)"
    by (cases "Downloader_getNextRange d")
  have "p = None"
  proof (cases p)
    case None
    then show ?thesis .
  next
    case (Some r)
    obtain err d2 where dp: "downloadPart env dn r = (err, d2)"
      by (cases "downloadPart env dn r")
    from g Some have g2: "Downloader_getNextRange d = (Some r, dn)" by simp
    from Nil(1) have False
      unfolding dispatch_d_step[OF g2 dp] by (auto simp: bind_eq_Some_conv)
    then show ?thesis ..
  qed
  with g have "size_d d \<le> offset_d d"
    by (auto simp: Downloader_getNextRange_def split: if_splits)
  with Nil(2-4) have "size_d d' \<le> offset_d d'"
    by simp
  then show ?case
    by (simp add: dispatch_d_at_end)
next
  case (Cons a rest)
  obtain p dn where g: "Downloader_getNextRange d = (p, dn)"
    by (cases "Downloader_getNextRange d")
  have "p \<noteq> None"
  proof
    assume "p = None"
    with g have "dispatch_d env d = Some (dn, [])"
      by (simp add: dispatch_d_stop)
    with Cons(2) show False by simp
  qed
  then obtain r where p: "p = Some r" by auto
  from g p have g2: "Downloader_getNextRange d = (Some r, dn)" by simp
  obtain err d2 where dp: "downloadPart env dn r = (err, d2)"
    by (cases "downloadPart env dn r")
  from Cons(2) have rec: "dispatch_d env d2 = Some (d1, rest)" and a: "a = (r, err)"
    unfolding dispatch_d_step[OF g2 dp] by (auto simp: bind_eq_Some_conv)
  from getNextRange_same[OF g2 Cons(3-5)] obtain dn' where
    g': "Downloader_getNextRange d' = (Some r, dn')"
    and dn': "PartSize_d dn' = PartSize_d dn" "size_d dn' = size_d dn" "offset_d dn' = offset_d dn"
    by blast
  obtain err' d2' where dp': "downloadPart env' dn' r = (err', d2')"
    by (cases "downloadPart env' dn' r")
  from downloadPart_preserves[OF dp] downloadPart_preserves[OF dp'] dn'
  have "PartSize_d d2' = PartSize_d d2" "size_d d2' = size_d d2" "offset_d d2' = offset_d d2"
    by simp_all
  from Cons(1)[OF rec this] obtain d1' done' where
    "dispatch_d env' d2' = Some (d1', done')" "map fst done' = map fst rest"
    by blast
  with a show ?case
    unfolding dispatch_d_step[OF g' dp'] by simp
qed

lemma checkJob_treeHash:
  "checkJob env d = Inr d1 \<Longrightarrow> \<exists>hash. treeHash d1 = Some hash"
  by (auto simp: checkJob_def split: sum.splits if_splits option.splits)

lemma openFile_d_treeHash: "openFile_d env d = Inr d1 \<Longrightarrow> treeHash d1 = treeHash d"
  by (auto simp: openFile_d_def split: option.splits)

lemma Truncate_treeHash: "Truncate env d = Inr d1 \<Longrightarrow> treeHash d1 = treeHash d"
  by (auto simp: Truncate_def split: option.splits if_splits)

lemma multipartDownload_Inr:
  assumes "multipartDownload env jobs d = Some (Inr res)"
  shows "dispatch_d env d = Some res"
proof (cases "jobs = 0")
  case True
  with assms obtain d1 where "Downloader_getNextRange d = (None, d1)" "res = (d1, [])"
    by (auto simp: multipartDownload_def split: option.splits prod.splits)
  then show ?thesis by (simp add: dispatch_d_stop)
next
  case False
  with assms show ?thesis by (auto simp: multipartDownload_def split: if_splits)
qed

lemma multipartDownload_workers:
  "0 < jobs \<Longrightarrow> multipartDownload env jobs d = map_option Inr (dispatch_d env d)"
  by (simp add: multipartDownload_def)



lemma multipartDownload_same_ranges:
  assumes "multipartDownload env jobs d = Some (Inr (d1, done))"
  shows "\<exists>d2 done2. multipartDownload env2 jobs d = Some (Inr (d2, done2))
           \<and> map fst done2 = map fst done"
proof -
  from assms have j: "0 \<le> jobs"
    by (auto simp: multipartDownload_def split: if_splits)
  show ?thesis
  proof (cases "jobs = 0")
    case True
    with assms show ?thesis
      by (auto simp: multipartDownload_def split: option.splits prod.splits)
  next
    case False
    with j have p: "0 < jobs" by simp
    from multipartDownload_Inr[OF assms]
    have "dispatch_d env d = Some (d1, done)" .
    from dispatch_d_same_ranges[OF this, where d' = d and env' = env2]
    obtain d2 done2 where "dispatch_d env2 d = Some (d2, done2)" "map fst done2 = map fst done"
      by auto
    with p show ?thesis
      by (simp add: multipartDownload_workers)
  qed
qed

subsection \<open>The ranges of a dispatch\<close>












subsection \<open>The calls of \<open>getNextRange\<close>, and a cursor that wraps around\<close>





subsection \<open>The examples\<close>

lemma RangeFromString_0_3: "RangeFromString ''0-3'' = Some \<lparr>Offset = 0, Limit = 4\<rparr>"
  by (simp add: RangeFromString_def ParseInt_def ParseUint_def isDigit_def digitVal_def wrap64_def)

lemma local_hash_test:
  "ComputeTreeHash (SectionReader (file_u uploader_test) 0 4)
     = Some ''9f86d081884c7d659a2feaa0c55ad015a3bf4f1b2b0b822cd15d6c15b0f00a08''"
proof -
  have "SectionReader (file_u uploader_test) 0 4 = bytesOf ''test''"
    by (simp add: SectionReader_def wrap64_def maxInt64_def uploader_test_def bytesOf_def)
  moreover have "ComputeTreeHash (bytesOf ''test'') = Some (EncodeToString (sha256 (bytesOf ''test'')))"
    by (rule ComputeTreeHash_single_chunk) (simp_all add: bytesOf_def)
  ultimately show ?thesis
    by (simp add: sha256_test)
qed

section \<open>The claims\<close>

text \<open>
  C1. \<open>ComputeTreeHash\<close> returns \<open>nil\<close> if and only if the stream yields no byte;
  otherwise it returns the hexadecimal encoding of the tree hash of the stream, which
  exists exactly for a non-empty stream; for the four bytes \<open>test\<close> the result is
  \<open>9f86d081884c7d659a2feaa0c55ad015a3bf4f1b2b0b822cd15d6c15b0f00a08\<close>.
\<close>

theorem ComputeTreeHash_none_iff_empty:
  "(ComputeTreeHash r = None \<longleftrightarrow> r = [])
   \<and> ComputeTreeHash r = map_option EncodeToString (ComputeHashes_TreeHash r)
   \<and> (ComputeHashes_TreeHash r = None \<longleftrightarrow> r = [])
   \<and> ComputeTreeHash (bytesOf ''test'')
       = Some ''9f86d081884c7d659a2feaa0c55ad015a3bf4f1b2b0b822cd15d6c15b0f00a08''"
proof -
  have "ComputeTreeHash (bytesOf ''test'') = Some (EncodeToString (sha256 (bytesOf ''test'')))"
    by (rule ComputeTreeHash_single_chunk) (simp_all add: bytesOf_def)
  then show ?thesis
    by (simp add: sha256_test ComputeTreeHash_None_iff TreeHash_None_iff)
      (simp add: ComputeTreeHash_def split: option.splits)
qed

text \<open>
  C2, as the program has it. For all \<open>int64\<close> values \<open>0 \<le> a \<le> b\<close> whose length
  \<open>b - a + 1\<close> is an \<open>int64\<close> as well, parsing the text of the range with offset
  \<open>a\<close> and that length gives the range back.
\<close>

theorem format_parse_roundtrip:
  assumes "0 \<le> a" "a \<le> b" "b \<le> maxInt64" "b - a + 1 \<le> maxInt64"
  shows "RangeFromString (Range_String \<lparr>Offset = a, Limit = b - a + 1\<rparr>)
           = Some \<lparr>Offset = a, Limit = b - a + 1\<rparr>"
  using assms RangeFromString_Range_String[of "\<lparr>Offset = a, Limit = b - a + 1\<rparr>"] by simp

theorem format_parse_roundtrip_witness:
  "(0::int) \<le> 5 \<and> (5::int) \<le> 7 \<and> 7 \<le> maxInt64 \<and> 7 - 5 + 1 \<le> maxInt64
   \<and> Range_String \<lparr>Offset = 5, Limit = 3\<rparr> = ''5-7''
   \<and> RangeFromString ''5-7'' = Some \<lparr>Offset = 5, Limit = 3\<rparr>"
proof -
  have h: "(0::int) \<le> 5" "(5::int) \<le> 7" "7 \<le> maxInt64" "7 - 5 + 1 \<le> maxInt64"
    by (simp_all add: maxInt64_def)
  have s: "Range_String \<lparr>Offset = 5, Limit = 3\<rparr> = ''5-7''"
    by (simp add: Range_String_def FormatInt_def wrap64_def decimal.simps digitChar_def)
  from format_parse_roundtrip[OF h] s h show ?thesis by simp
qed

text \<open>
  C2 as stated fails where the end of the range is not an \<open>int64\<close>: the range with
  offset \<open>2^63 - 1\<close> and length 2 has length at least 1, its end \<open>offset + length - 1\<close>
  wraps around to \<open>-2^63\<close>, and its text has three separators and does not parse.
\<close>

theorem format_parse_overflow_counterexample:
  "Range_String \<lparr>Offset = 9223372036854775807, Limit = 2\<rparr>
     = ''9223372036854775807--9223372036854775808''
   \<and> RangeFromString ''9223372036854775807--9223372036854775808'' = None"
  by (simp add: Range_String_def FormatInt_def wrap64_def decimal.simps digitChar_def
      RangeFromString_def)




text \<open>
  C4. For a listed part whose range is valid and whose offset is within the file,
  with the tree hash of that range of the local file and the hash the remote side
  recorded: if they are equal, \<open>checkPart\<close> returns true and marks the offset as
  uploaded; if they differ, it returns false, no error, and leaves the state as it
  was. A marked offset stays marked through the rest of the reconciliation, and
  neither \<open>getNextRange\<close> nor \<open>multipartUpload\<close> ever yields a range at a marked
  offset.
\<close>

theorem checkPart_marks_matching_part:
  assumes "RangeInBytes part = Some text"
    and "RangeFromString text = Some partRange"
    and "Offset partRange < size_u s"
    and "ComputeTreeHash (SectionReader (file_u s) (Offset partRange) (Limit partRange))
           = Some local"
    and "SHA256TreeHash part = Some remote"
  shows
    "(local = remote \<longrightarrow>
        checkPart s part
          = Inr (True, s\<lparr>uploaded := insert (Offset partRange) (uploaded s)\<rparr>))
   \<and> (local \<noteq> remote \<longrightarrow> checkPart s part = Inr (False, s))
   \<and> (\<forall>parts s1. Offset partRange \<in> uploaded s1 \<longrightarrow> checkParts s1 parts = Inr s2 \<longrightarrow>
          Offset partRange \<in> uploaded s2)
   \<and> (\<forall>pages s1. Offset partRange \<in> uploaded s1 \<longrightarrow> checkPages s1 pages = Inr s2 \<longrightarrow>
          Offset partRange \<in> uploaded s2)
   \<and> (\<forall>s1 r. Offset partRange \<in> uploaded s1 \<longrightarrow>
          Uploader_getNextRange s1 = Some (Some r, s2) \<longrightarrow> Offset r \<noteq> Offset partRange)
   \<and> (\<forall>env jobs s1 done. Offset partRange \<in> uploaded s1 \<longrightarrow>
          multipartUpload env jobs s1 = Some (Inr (s2, done)) \<longrightarrow>
          Offset partRange \<notin> Offset ` fst ` set done)"
proof -
  have a: "local = remote \<longrightarrow>
        checkPart s part
          = Inr (True, s\<lparr>uploaded := insert (Offset partRange) (uploaded s)\<rparr>)"
    using assms by (simp add: checkPart_def)
  have b: "local \<noteq> remote \<longrightarrow> checkPart s part = Inr (False, s)"
    using assms by (simp add: checkPart_def)
  have c: "\<forall>parts s1. Offset partRange \<in> uploaded s1 \<longrightarrow> checkParts s1 parts = Inr s2 \<longrightarrow>
          Offset partRange \<in> uploaded s2"
  proof (intro allI impI)
    fix parts s1
    assume "Offset partRange \<in> uploaded s1" "checkParts s1 parts = Inr s2"
    with checkParts_preserves[of s1 parts s2] show "Offset partRange \<in> uploaded s2" by auto
  qed
  have d: "\<forall>pages s1. Offset partRange \<in> uploaded s1 \<longrightarrow> checkPages s1 pages = Inr s2 \<longrightarrow>
          Offset partRange \<in> uploaded s2"
  proof (intro allI impI)
    fix pages s1
    assume "Offset partRange \<in> uploaded s1" "checkPages s1 pages = Inr s2"
    with checkPages_preserves[of s1 pages s2] show "Offset partRange \<in> uploaded s2" by auto
  qed
  have e: "\<forall>s1 r. Offset partRange \<in> uploaded s1 \<longrightarrow>
          Uploader_getNextRange s1 = Some (Some r, s2) \<longrightarrow> Offset r \<noteq> Offset partRange"
  proof (intro allI impI)
    fix s1 r
    assume "Offset partRange \<in> uploaded s1" "Uploader_getNextRange s1 = Some (Some r, s2)"
    with getNextRange_not_uploaded[of s1 r s2] show "Offset r \<noteq> Offset partRange" by auto
  qed
  have f: "\<forall>env jobs s1 done. Offset partRange \<in> uploaded s1 \<longrightarrow>
          multipartUpload env jobs s1 = Some (Inr (s2, done)) \<longrightarrow>
          Offset partRange \<notin> Offset ` fst ` set done"
  proof (intro allI impI)
    fix env jobs s1 "done"
    assume "Offset partRange \<in> uploaded s1"
      and "multipartUpload env jobs s1 = Some (Inr (s2, done))"
    with dispatch_u_not_uploaded[OF multipartUpload_Inr, of env jobs s1 "(s2, done)"]
    show "Offset partRange \<notin> Offset ` fst ` set done" by auto
  qed
  from a b c d e f show ?thesis by (intro conjI) assumption+
qed

theorem checkPart_marks_matching_part_witness:
  "checkPart uploader_test part_ok = Inr (True, uploader_test\<lparr>uploaded := {0}\<rparr>)
   \<and> checkPart uploader_test part_not_ok = Inr (False, uploader_test)"
proof -
  have r: "RangeFromString ''0-3'' = Some \<lparr>Offset = 0, Limit = 4\<rparr>"
    by (rule RangeFromString_0_3)
  have o: "Offset \<lparr>Offset = 0, Limit = 4\<rparr> < size_u uploader_test"
    by (simp add: uploader_test_def)
  have h: "ComputeTreeHash (SectionReader (file_u uploader_test)
               (Offset \<lparr>Offset = 0, Limit = 4\<rparr>) (Limit \<lparr>Offset = 0, Limit = 4\<rparr>))
             = Some ''9f86d081884c7d659a2feaa0c55ad015a3bf4f1b2b0b822cd15d6c15b0f00a08''"
    using local_hash_test by simp
  have 1: "RangeInBytes part_ok = Some ''0-3''"
    and 2: "SHA256TreeHash part_ok
              = Some ''9f86d081884c7d659a2feaa0c55ad015a3bf4f1b2b0b822cd15d6c15b0f00a08''"
    by (simp_all add: part_ok_def)
  have 3: "RangeInBytes part_not_ok = Some ''0-3''"
    and 4: "SHA256TreeHash part_not_ok = Some ''test_hash''"
    by (simp_all add: part_not_ok_def)
  note t1 = checkPart_marks_matching_part[OF 1 r o h 2, THEN conjunct1]
  note t2 = checkPart_marks_matching_part[OF 3 r o h 4, THEN conjunct2, THEN conjunct1]
  from t1 t2 show ?thesis
    by (simp add: uploader_test_def)
qed

text \<open>
  C5. In a run of \<open>Upload\<close> that opens the file, has its upload session and lists
  the parts: when a page that is fetched (the ones before it having passed)
  declares a part size other than the configured one, \<open>checkUploadedParts\<close> returns
  the error \<open>part size mismatch\<close>, and \<open>Upload\<close> returns it with no range given to
  \<open>uploadPart\<close>, hence without any request to upload a part.
\<close>

theorem part_size_mismatch_aborts:
  assumes "openFile_u env s0 = Inr s1"
    and "initiateUpload env s1 = Inr s"
    and "fst (ListParts env) = pre @ page # rest"
    and "checkPages s pre = Inr s2"
    and "PartSizeInBytes page = Some declared"
    and "declared \<noteq> PartSize_u s0"
  shows "checkUploadedParts env s = Inl (ErrorMsg ''part size mismatch'')
       \<and> Upload env jobs s0 = Some ([], Some (ErrorMsg ''part size mismatch''))"
proof -
  have "PartSize_u s2 = PartSize_u s0"
    using assms(1,2,4) openFile_u_PartSize initiateUpload_PartSize checkPages_preserves by metis
  with assms(5,6) have "checkPages s2 (page # rest) = Inl (ErrorMsg ''part size mismatch'')"
    by simp
  with assms(3,4) have "checkUploadedParts env s = Inl (ErrorMsg ''part size mismatch'')"
    by (simp add: checkUploadedParts_def checkPages_append)
  with assms(1,2) show ?thesis
    by (simp add: Upload_def)
qed

theorem part_size_mismatch_aborts_witness:
  "Upload (env_upload [\<lparr>PartSizeInBytes = Some 321, Parts = []\<rparr>]) 1 (New_u ''test_id'' 123)
     = Some ([], Some (ErrorMsg ''part size mismatch''))"
proof -
  let ?env = "env_upload [\<lparr>PartSizeInBytes = Some 321, Parts = []\<rparr>]"
  let ?s = "(New_u ''test_id'' 123)\<lparr>file_u := bytesOf ''test'', size_u := 4\<rparr>"
  have 1: "openFile_u ?env (New_u ''test_id'' 123) = Inr ?s"
    by (simp add: openFile_u_def env_upload_def bytesOf_def)
  have 2: "initiateUpload ?env ?s = Inr ?s"
    by (simp add: initiateUpload_def New_u_def)
  have 3: "fst (ListParts ?env) = [] @ \<lparr>PartSizeInBytes = Some 321, Parts = []\<rparr> # []"
    by (simp add: env_upload_def)
  have 4: "checkPages ?s [] = Inr ?s"
    by simp
  have 5: "PartSizeInBytes \<lparr>PartSizeInBytes = Some 321, Parts = []\<rparr> = Some 321"
    by simp
  have 6: "321 \<noteq> PartSize_u (New_u ''test_id'' 123)"
    by (simp add: New_u_def)
  from part_size_mismatch_aborts[OF 1 2 3 4 5 6, of 1] show ?thesis by simp
qed

text \<open>
  C6, as the program has it. For a job description returned without a transport
  error, \<open>checkJob\<close> fails naming the action when it is not the retrieval of an
  archive; otherwise with its own error when the status is in progress; with the
  status message of the service when the status is failed and a message is present;
  with an error naming the status when it is none of the three; with the alignment
  error when the job succeeded and no tree hash is present; and when the job
  succeeded with a tree hash and the archive size is present, it records both. The
  error of a job in progress differs from every error of a failed job.
\<close>

theorem checkJob_outcomes:
  assumes "DescribeJob env = Inr result"
  shows
    "(Action result \<noteq> ''ArchiveRetrieval'' \<longrightarrow>
        checkJob env d = Inl (ErrorMsg (Action result @ '' action is not supported'')))
   \<and> (Action result = ''ArchiveRetrieval'' \<and> StatusCode result = ''InProgress'' \<longrightarrow>
        checkJob env d = Inl (ErrorMsg ''the job is not succeeded yet''))
   \<and> (Action result = ''ArchiveRetrieval'' \<and> StatusCode result = ''Failed''
        \<and> StatusMessage result = Some message \<longrightarrow>
        checkJob env d = Inl (ErrorMsg (''the job is failed: '' @ message)))
   \<and> (Action result = ''ArchiveRetrieval'' \<and> StatusCode result \<noteq> ''Succeeded''
        \<and> StatusCode result \<noteq> ''InProgress'' \<and> StatusCode result \<noteq> ''Failed'' \<longrightarrow>
        checkJob env d = Inl (ErrorMsg (''job status is unexpected: '' @ StatusCode result)))
   \<and> (Action result = ''ArchiveRetrieval'' \<and> StatusCode result = ''Succeeded''
        \<and> SHA256TreeHash_job result = None \<longrightarrow>
        checkJob env d = Inl (ErrorMsg ''the retrieved range must be tree-hash aligned''))
   \<and> (Action result = ''ArchiveRetrieval'' \<and> StatusCode result = ''Succeeded''
        \<and> SHA256TreeHash_job result = Some hash \<and> ArchiveSizeInBytes result = Some n \<longrightarrow>
        checkJob env d = Inr (d\<lparr>size_d := n, treeHash := Some hash\<rparr>))
   \<and> ErrorMsg ''the job is not succeeded yet'' \<noteq> ErrorMsg (''the job is failed: '' @ message)"
  using assms by (simp add: checkJob_def)

theorem checkJob_outcomes_witness:
  "checkJob (env_job job_unsupported) (New_d ''test_file'' 123)
     = Inl (ErrorMsg ''test action is not supported'')
   \<and> checkJob (env_job (job_status ''InProgress'' None)) (New_d ''test_file'' 123)
     = Inl (ErrorMsg ''the job is not succeeded yet'')
   \<and> checkJob (env_job (job_status ''Failed'' (Some ''test''))) (New_d ''test_file'' 123)
     = Inl (ErrorMsg ''the job is failed: test'')
   \<and> checkJob (env_job (job_status ''test'' None)) (New_d ''test_file'' 123)
     = Inl (ErrorMsg ''job status is unexpected: test'')
   \<and> checkJob (env_job (job_status ''Succeeded'' None)) (New_d ''test_file'' 123)
     = Inl (ErrorMsg ''the retrieved range must be tree-hash aligned'')
   \<and> checkJob (env_job (job_succeeded 123 ''test'')) (New_d ''test_file'' 123)
     = Inr ((New_d ''test_file'' 123)\<lparr>size_d := 123, treeHash := Some ''test''\<rparr>)"
proof -
  have d: "\<And>job. DescribeJob (env_job job) = Inr job"
    by (simp add: env_job_def)
  note t = checkJob_outcomes[OF d, of _ "New_d ''test_file'' 123"]
  from t[of job_unsupported, THEN conjunct1]
  have 1: "checkJob (env_job job_unsupported) (New_d ''test_file'' 123)
     = Inl (ErrorMsg ''test action is not supported'')"
    by (simp add: job_unsupported_def)
  from t[of "job_status ''InProgress'' None", THEN conjunct2, THEN conjunct1]
  have 2: "checkJob (env_job (job_status ''InProgress'' None)) (New_d ''test_file'' 123)
     = Inl (ErrorMsg ''the job is not succeeded yet'')"
    by (simp add: job_status_def)
  from t[of "job_status ''Failed'' (Some ''test'')" "''test''",
      THEN conjunct2, THEN conjunct2, THEN conjunct1]
  have 3: "checkJob (env_job (job_status ''Failed'' (Some ''test''))) (New_d ''test_file'' 123)
     = Inl (ErrorMsg ''the job is failed: test'')"
    by (simp add: job_status_def)
  from t[of "job_status ''test'' None", THEN conjunct2, THEN conjunct2, THEN conjunct2,
      THEN conjunct1]
  have 4: "checkJob (env_job (job_status ''test'' None)) (New_d ''test_file'' 123)
     = Inl (ErrorMsg ''job status is unexpected: test'')"
    by (simp add: job_status_def)
  from t[of "job_status ''Succeeded'' None", THEN conjunct2, THEN conjunct2, THEN conjunct2,
      THEN conjunct2, THEN conjunct1]
  have 5: "checkJob (env_job (job_status ''Succeeded'' None)) (New_d ''test_file'' 123)
     = Inl (ErrorMsg ''the retrieved range must be tree-hash aligned'')"
    by (simp add: job_status_def)
  from t[of "job_succeeded 123 ''test''" _ "''test''" 123, THEN conjunct2, THEN conjunct2,
      THEN conjunct2, THEN conjunct2, THEN conjunct2, THEN conjunct1]
  have 6: "checkJob (env_job (job_succeeded 123 ''test'')) (New_d ''test_file'' 123)
     = Inr ((New_d ''test_file'' 123)\<lparr>size_d := 123, treeHash := Some ''test''\<rparr>)"
    by (simp add: job_succeeded_def)
  from 1 2 3 4 5 6 show ?thesis by (intro conjI)
qed

text \<open>
  C6 as stated fails for a failed job without a status message: \<open>checkJob\<close>
  dereferences the absent message and panics, and no error is returned.
\<close>

theorem checkJob_nil_message_counterexample:
  "checkJob (env_job job_failed_no_message) (New_d ''test_file'' 123) = Inl NilDereference"
  by (simp add: checkJob_def env_job_def job_failed_no_message_def)

text \<open>
  C7. When a run of \<open>Download\<close> reaches the final check (the job is valid, the file
  is created and sized, \<open>multipartDownload\<close> returns), its result is that of the check
  alone: \<open>could not compute hash\<close> when the tree hash of the file has no value,
  \<open>hash mismatch\<close> when it differs from the hash recorded from the job, and no error
  when it is equal, whatever the workers returned. Whatever the surroundings answer
  to the workers, \<open>multipartDownload\<close> returns and dispatches the same ranges.
\<close>

theorem Download_result_is_final_check:
  assumes "checkJob env d = Inr d1"
    and "openFile_d env d1 = Inr d2"
    and "Truncate env d2 = Inr d3"
    and "multipartDownload env jobs d3 = Some (Inr (d4, done))"
  shows
    "(ComputeTreeHash (file_d d4) = None \<longrightarrow>
        Download env jobs d = Some (done, Some (ErrorMsg ''could not compute hash'')))
   \<and> (ComputeTreeHash (file_d d4) \<noteq> None \<and> ComputeTreeHash (file_d d4) \<noteq> treeHash d1 \<longrightarrow>
        Download env jobs d = Some (done, Some (ErrorMsg ''hash mismatch'')))
   \<and> (ComputeTreeHash (file_d d4) \<noteq> None \<and> ComputeTreeHash (file_d d4) = treeHash d1 \<longrightarrow>
        Download env jobs d = Some (done, None))
   \<and> (\<forall>env2. \<exists>d5 done2.
        multipartDownload env2 jobs d3 = Some (Inr (d5, done2))
        \<and> map fst done2 = map fst done)"
proof -
  from checkJob_treeHash[OF assms(1)] obtain hash where h1: "treeHash d1 = Some hash" ..
  from dispatch_d_treeHash[OF multipartDownload_Inr[OF assms(4)]]
    openFile_d_treeHash[OF assms(2)] Truncate_treeHash[OF assms(3)] h1
  have h4: "treeHash d4 = treeHash d1" by simp
  have D: "Download env jobs d = Some (done, checkTreeHash d4)"
    using assms by (simp add: Download_def)
  have a: "ComputeTreeHash (file_d d4) = None \<longrightarrow>
        Download env jobs d = Some (done, Some (ErrorMsg ''could not compute hash''))"
    by (simp add: D checkTreeHash_def)
  have b: "ComputeTreeHash (file_d d4) \<noteq> None \<and> ComputeTreeHash (file_d d4) \<noteq> treeHash d1 \<longrightarrow>
        Download env jobs d = Some (done, Some (ErrorMsg ''hash mismatch''))"
    using h1 h4 by (auto simp: D checkTreeHash_def)
  have c: "ComputeTreeHash (file_d d4) \<noteq> None \<and> ComputeTreeHash (file_d d4) = treeHash d1 \<longrightarrow>
        Download env jobs d = Some (done, None)"
    using h1 h4 by (auto simp: D checkTreeHash_def)
  have e: "\<forall>env2. \<exists>d5 done2.
        multipartDownload env2 jobs d3 = Some (Inr (d5, done2))
        \<and> map fst done2 = map fst done"
    using multipartDownload_same_ranges[OF assms(4)] by simp
  from a b c e show ?thesis by (intro conjI)
qed

theorem Download_result_is_final_check_witness:
  "Download (env_job (job_succeeded 4 ''test'')) 1 (New_d ''test_file'' 4)
     = Some ([(\<lparr>Offset = 0, Limit = 4\<rparr>, Some (ErrorMsg ''test''))],
             Some (ErrorMsg ''hash mismatch''))"
proof -
  let ?env = "env_job (job_succeeded 4 ''test'')"
  let ?checked = "(New_d ''test_file'' 4)\<lparr>size_d := 4, treeHash := Some ''test''\<rparr>"
  let ?created = "?checked\<lparr>file_d := []\<rparr>"
  let ?sized = "?created\<lparr>file_d := [0, 0, 0, 0]\<rparr>"
  let ?final = "?sized\<lparr>offset_d := 4\<rparr>"
  have 1: "checkJob ?env (New_d ''test_file'' 4) = Inr ?checked"
    by (simp add: checkJob_def env_job_def job_succeeded_def)
  have 2: "openFile_d ?env ?checked = Inr ?created"
    by (simp add: openFile_d_def env_job_def)
  have 3: "Truncate ?env ?created = Inr ?sized"
    by (simp add: Truncate_def env_job_def New_d_def numeral_eq_Suc)
  have g: "Downloader_getNextRange ?sized = (Some \<lparr>Offset = 0, Limit = 4\<rparr>, ?final)"
    by (simp add: Downloader_getNextRange_def rangeAt_def wrap64_def New_d_def)
  have p: "downloadPart ?env ?final \<lparr>Offset = 0, Limit = 4\<rparr> = (Some (ErrorMsg ''test''), ?final)"
    by (simp add: downloadPart_def env_job_def)
  have s: "dispatch_d ?env ?final = Some (?final, [])"
    by (rule dispatch_d_at_end) (simp add: New_d_def)
  have "dispatch_d ?env ?sized
          = Some (?final, [(\<lparr>Offset = 0, Limit = 4\<rparr>, Some (ErrorMsg ''test''))])"
    unfolding dispatch_d_step[OF g p] using s by simp
  then have 4: "multipartDownload ?env 1 ?sized
             = Some (Inr (?final, [(\<lparr>Offset = 0, Limit = 4\<rparr>, Some (ErrorMsg ''test''))]))"
    by (simp add: multipartDownload_def)
  have ne: "ComputeTreeHash (file_d ?final) \<noteq> None"
    by (simp add: ComputeTreeHash_None_iff)
  have "ComputeTreeHash (file_d ?final) \<noteq> Some ''test''"
    using length_ComputeTreeHash[of "file_d ?final" "''test''"] by auto
  then have nq: "ComputeTreeHash (file_d ?final) \<noteq> treeHash ?checked"
    by simp
  from Download_result_is_final_check[OF 1 2 3 4, THEN conjunct2, THEN conjunct1] ne nq
  show ?thesis by blast
qed

text \<open>
  C8, as the program has it. \<open>RangeFromString\<close> returns \<open>nil\<close> exactly when the text
  has not exactly one separator, a side is not a non-negative integer, the end is
  less than the start, or the length \<open>end - start + 1\<close> is not an \<open>int64\<close>;
  otherwise it returns the range from start of that length. It returns \<open>nil\<close> for
  the six texts of the claim, offset 0 and limit 1 for \<open>0-0\<close>, offset 0 and limit 2
  for \<open>0-1\<close>.
\<close>

theorem RangeFromString_nil_iff:
  "(RangeFromString s = None \<longleftrightarrow> invalid_range_text s \<or> length_overflows s)
   \<and> RangeFromString s =
       (case startEnd s of
          None \<Rightarrow> None
        | Some (a, b) \<Rightarrow>
            if b < a \<or> maxInt64 < b - a + 1 then None
            else Some \<lparr>Offset = a, Limit = b - a + 1\<rparr>)
   \<and> RangeFromString '''' = None
   \<and> RangeFromString ''abc'' = None
   \<and> RangeFromString ''0-1-2'' = None
   \<and> RangeFromString ''x-0'' = None
   \<and> RangeFromString ''0-x'' = None
   \<and> RangeFromString ''1-0'' = None
   \<and> RangeFromString ''0-0'' = Some \<lparr>Offset = 0, Limit = 1\<rparr>
   \<and> RangeFromString ''0-1'' = Some \<lparr>Offset = 0, Limit = 2\<rparr>"
proof -
  have iff: "RangeFromString s = None \<longleftrightarrow> invalid_range_text s \<or> length_overflows s"
    by (subst RangeFromString_char)
      (auto simp: invalid_range_text_def length_overflows_def split: option.splits)
  have examples:
    "RangeFromString '''' = None" "RangeFromString ''abc'' = None"
    "RangeFromString ''0-1-2'' = None" "RangeFromString ''x-0'' = None"
    "RangeFromString ''0-x'' = None" "RangeFromString ''1-0'' = None"
    "RangeFromString ''0-0'' = Some \<lparr>Offset = 0, Limit = 1\<rparr>"
    "RangeFromString ''0-1'' = Some \<lparr>Offset = 0, Limit = 2\<rparr>"
    by (simp_all add: RangeFromString_def ParseInt_def ParseUint_def isDigit_def digitVal_def
        wrap64_def)
  from iff examples RangeFromString_char[of s] show ?thesis
    by simp
qed

text \<open>
  C8 as stated fails at \<open>0-9223372036854775807\<close>: the text has one separator, both
  sides are non-negative integers that \<open>ParseInt\<close> accepts, and the end is not less
  than the start; the length \<open>2^63\<close> wraps around to \<open>-2^63\<close> and \<open>nil\<close> is returned.
\<close>

theorem RangeFromString_nil_counterexample:
  "RangeFromString ''0-9223372036854775807'' = None
   \<and> \<not> invalid_range_text ''0-9223372036854775807''"
  by (simp add: RangeFromString_def invalid_range_text_def startEnd_ParseInt ParseInt_def
      ParseUint_def isDigit_def digitVal_def wrap64_def)

text \<open>
  C9. Once the range of a listed part parses, its offset is below the size of the
  file and the local tree hash has a value, \<open>checkPart\<close> dereferences the remote
  checksum: when it is absent, \<open>checkPart\<close>, the loop over the parts and
  \<open>checkUploadedParts\<close> end in the panic of a \<open>nil\<close> dereference, which is not a
  returned error; when it is present, \<open>checkPart\<close> returns a result.
\<close>

theorem checkPart_nil_checksum:
  assumes "RangeInBytes part = Some text"
    and "RangeFromString text = Some partRange"
    and "Offset partRange < size_u s"
    and "ComputeTreeHash (SectionReader (file_u s) (Offset partRange) (Limit partRange))
           = Some local"
  shows
    "(SHA256TreeHash part = None \<longrightarrow>
        checkPart s part = Inl NilDereference
        \<and> checkParts s (part # parts) = Inl NilDereference
        \<and> (\<forall>env.
              fst (ListParts env)
                = \<lparr>PartSizeInBytes = Some (PartSize_u s), Parts = part # parts\<rparr> # pages \<longrightarrow>
              checkUploadedParts env s = Inl NilDereference))
   \<and> (SHA256TreeHash part \<noteq> None \<longrightarrow> (\<exists>ok s1. checkPart s part = Inr (ok, s1)))
   \<and> (\<forall>message. NilDereference \<noteq> ErrorMsg message)"
  using assms by (auto simp: checkPart_def checkUploadedParts_def)

theorem checkPart_nil_checksum_witness:
  "checkPart uploader_test part_no_checksum = Inl NilDereference
   \<and> checkUploadedParts
        (env_upload [\<lparr>PartSizeInBytes = Some 123, Parts = [part_no_checksum]\<rparr>]) uploader_test
       = Inl NilDereference
   \<and> (\<exists>ok s1. checkPart uploader_test part_ok = Inr (ok, s1))"
proof -
  have r: "RangeFromString ''0-3'' = Some \<lparr>Offset = 0, Limit = 4\<rparr>"
    by (rule RangeFromString_0_3)
  have o: "Offset \<lparr>Offset = 0, Limit = 4\<rparr> < size_u uploader_test"
    by (simp add: uploader_test_def)
  have h: "ComputeTreeHash (SectionReader (file_u uploader_test)
               (Offset \<lparr>Offset = 0, Limit = 4\<rparr>) (Limit \<lparr>Offset = 0, Limit = 4\<rparr>))
             = Some ''9f86d081884c7d659a2feaa0c55ad015a3bf4f1b2b0b822cd15d6c15b0f00a08''"
    using local_hash_test by simp
  have 1: "RangeInBytes part_no_checksum = Some ''0-3''"
    and 2: "SHA256TreeHash part_no_checksum = None"
    by (simp_all add: part_no_checksum_def)
  have 3: "RangeInBytes part_ok = Some ''0-3''"
    and 4: "SHA256TreeHash part_ok \<noteq> None"
    by (simp_all add: part_ok_def)
  have p: "PartSize_u uploader_test = 123"
    by (simp add: uploader_test_def)
  have l: "fst (ListParts (env_upload [\<lparr>PartSizeInBytes = Some 123, Parts = [part_no_checksum]\<rparr>]))
             = \<lparr>PartSizeInBytes = Some (PartSize_u uploader_test), Parts = part_no_checksum # []\<rparr>
                 # []"
    by (simp add: env_upload_def p)
  note t = checkPart_nil_checksum[OF 1 r o h, where parts = "[]" and pages = "[]",
      THEN conjunct1, rule_format, OF 2]
  note t1 = t[THEN conjunct1]
  note t2 = t[THEN conjunct2, THEN conjunct2, rule_format, OF l]
  note t3 = checkPart_nil_checksum[OF 3 r o h, THEN conjunct2, THEN conjunct1, rule_format, OF 4]
  from t1 t2 t3 show ?thesis by (intro conjI)
qed



end
